theory Spec2Isabelle
  imports Main "HOL-Library.Char_ord" "HOL-Library.List_Lexorder"
begin

section \<open>The block graph being built\<close>

text \<open>
  The lowering of \<^verbatim>\<open>gen/statements.cpp\<close> appends instructions to LLVM basic blocks.
  A basic block pointer is the index of the block in the function's block list, a block
  is the list of its instructions in order. Values are symbolic: an expression handed to
  \<^verbatim>\<open>toElemDtor\<close> leaves the instruction \<open>Eval e\<close> in the current block and the
  value \<open>RVal e\<close>. Debug-info, coverage and profile-counter hooks only add bookkeeping to
  the current block and are left out; where instrumentation adds blocks of its own (the
  counter blocks of a switch) it is modelled under the flag \<open>genInstrProf\<close>.
\<close>

type_synonym bb = nat
type_synonym stmt_id = nat
type_synonym ident = string
type_synonym classdecl = nat

datatype expr = Expr nat

datatype llvalue =
    ConstInt int
  | ConstStr string
  | NullValue
  | RVal expr
  | ICmpEQ llvalue llvalue
  | Load llvalue
  | Alloca string
  | Global string
  | SwitchTable "string list"
  | CallResult string "llvalue list"

datatype instr =
    Eval expr
  | Op string "llvalue list"
  | Store llvalue llvalue
  | CallOrInvoke string "llvalue list" "(bb \<times> bb) list" "(classdecl \<times> bb) list"
  | RunCleanup bb bb
  | Br bb
  | BrLabel ident
  | CondBr llvalue bb bb
  | SwitchInst llvalue bb "(llvalue \<times> bb) list"
  | Ret llvalue
  | RetVoid
  | Unreachable

fun isTerminator :: "instr \<Rightarrow> bool" where
  "isTerminator (Br _) = True"
| "isTerminator (BrLabel _) = True"
| "isTerminator (CondBr _ _ _) = True"
| "isTerminator (SwitchInst _ _ _) = True"
| "isTerminator (Ret _) = True"
| "isTerminator RetVoid = True"
| "isTerminator Unreachable = True"
| "isTerminator _ = False"

text \<open>\<^verbatim>\<open>BasicBlock::getTerminator\<close>: the last instruction when it is a terminator.\<close>

definition getTerminator :: "instr list \<Rightarrow> instr option" where
  "getTerminator b = (if b = [] then None
                      else if isTerminator (last b) then Some (last b) else None)"

datatype error =
    Fatal string
  | AssertionFailed string
  | NullPointer string

datatype TY = Tchar | Twchar | Tdchar | Tint

text \<open>
  The mutable code generation fields of the AST (\<^verbatim>\<open>CaseStatement::bodyBB\<close>,
  \<^verbatim>\<open>CaseStatement::llvmIdx\<close>, \<^verbatim>\<open>DefaultStatement::bodyBB\<close>) are tables keyed by the
  identity of the statement. The scope stack of the function (\<^verbatim>\<open>irs->func()->scopes\<close>)
  is part of the state; its innermost entry is the last element.
\<close>

record IRState =
  blocks :: "instr list list"
  scopebb :: bb
  cleanupScopes :: "(bb \<times> bb) list"
  catchScopes :: "(classdecl \<times> bb) list"
  loopTargets :: "(stmt_id \<times> bb option \<times> bb \<times> nat) list"
  labelTargets :: "(ident \<times> bb \<times> nat) list"
  unresolvedGotos :: "(ident \<times> nat) list"
  retBlock :: "bb option"
  retValSlot :: "llvalue option"
  bodyBB :: "stmt_id \<Rightarrow> bb option"
  llvmIdx :: "stmt_id \<Rightarrow> llvalue option"
  asmLabels :: "ident list"
  returnsVoid :: bool
  isMainFunc :: bool
  genInstrProf :: bool
  asmBlock :: bool

subsection \<open>Block builder\<close>

definition block_at :: "IRState \<Rightarrow> bb \<Rightarrow> instr list" where
  "block_at s b = (if b < length (blocks s) then blocks s ! b else [])"

text \<open>\<^verbatim>\<open>llvm::BasicBlock::Create\<close>: a new empty block at the end of the function.\<close>

definition createBlock :: "IRState \<Rightarrow> bb \<times> IRState" where
  "createBlock s = (length (blocks s), s\<lparr>blocks := blocks s @ [[]]\<rparr>)"

text \<open>Insertion of an instruction at the end of a given block; LLVM does not check
  whether the block already ends in a terminator.\<close>

definition appendTo :: "bb \<Rightarrow> instr \<Rightarrow> IRState \<Rightarrow> IRState" where
  "appendTo b i s = s\<lparr>blocks := (blocks s)[b := block_at s b @ [i]]\<rparr>"

definition emit :: "instr \<Rightarrow> IRState \<Rightarrow> IRState" where
  "emit i s = appendTo (scopebb s) i s"

definition setScope :: "bb \<Rightarrow> IRState \<Rightarrow> IRState" where
  "setScope b s = s\<lparr>scopebb := b\<rparr>"

text \<open>\<^verbatim>\<open>IRState::scopereturned\<close>: the current block ends in a terminator.\<close>

definition scopereturned :: "IRState \<Rightarrow> bool" where
  "scopereturned s = (getTerminator (block_at s (scopebb s)) \<noteq> None)"

text \<open>The recurring \<^verbatim>\<open>if (!irs->scopereturned()) BranchInst::Create(bb, irs->scopebb())\<close>.\<close>

definition brIfOpen :: "bb \<Rightarrow> IRState \<Rightarrow> IRState" where
  "brIfOpen target s = (if \<not> scopereturned s then emit (Br target) s else s)"

text \<open>Modelled from the spec: \<^verbatim>\<open>toElemDtor\<close>, the expression lowering, which is not part
  of this file: "an opaque lower expression to value operation", "assumed to have all
  necessary side effects and temporary cleanups already folded into it". It leaves the
  code of the expression in the current block and registers no cleanup.\<close>

definition toElemDtor :: "expr \<Rightarrow> IRState \<Rightarrow> IRState" where
  "toElemDtor e s = emit (Eval e) s"

text \<open>Modelled from the spec: \<^verbatim>\<open>IRState::CreateCallOrInvoke\<close>, not part of this file. A call
  that may throw is tied to the scopes it is emitted in: an exception propagates
  "running any intervening finally blocks exactly once on the way out", and "probing
  order for a thrown exception is stack order (most-recently-pushed innermost catch
  first), falling through to outer catches". The instruction records the pending
  cleanups and the active catches, both innermost first.\<close>

definition CreateCallOrInvoke :: "string \<Rightarrow> llvalue list \<Rightarrow> IRState \<Rightarrow> IRState" where
  "CreateCallOrInvoke fn args s =
     emit (CallOrInvoke fn args (rev (cleanupScopes s)) (rev (catchScopes s))) s"

section \<open>Scope stack\<close>

text \<open>Modelled from the spec: \<^verbatim>\<open>ScopeStack::currentCleanupScope\<close>, the cleanup cursor:
  "an opaque depth marker captured at scope entry and compared against the current
  depth".\<close>

definition currentCleanupScope :: "IRState \<Rightarrow> nat" where
  "currentCleanupScope s = length (cleanupScopes s)"

text \<open>Modelled from the spec: \<^verbatim>\<open>ScopeStack::pushCleanup\<close>: "appends to the stack;
  returns nothing, increases depth". The caller passes the first and the last block of
  the cleanup code.\<close>

definition pushCleanup :: "bb \<Rightarrow> bb \<Rightarrow> IRState \<Rightarrow> IRState" where
  "pushCleanup beginBlock endBlock s =
     s\<lparr>cleanupScopes := cleanupScopes s @ [(beginBlock, endBlock)]\<rparr>"

text \<open>Modelled from the spec: \<^verbatim>\<open>ScopeStack::popCleanups\<close>: "removes entries without
  emitting code".\<close>

definition popCleanups :: "nat \<Rightarrow> IRState \<Rightarrow> IRState" where
  "popCleanups targetScope s = s\<lparr>cleanupScopes := take targetScope (cleanupScopes s)\<rparr>"

text \<open>Modelled from the spec: \<^verbatim>\<open>ScopeStack::runCleanups\<close>: "emits, in reverse
  (innermost-first) order, the code for every cleanup above downTo, chaining each into a
  fresh block, and finally branches into target". \<open>RunCleanup b e\<close> stands for the code
  of the cleanup registered with the blocks \<open>b\<close> and \<open>e\<close>; \<open>runCleanupChain\<close> takes the
  cleanups innermost first and the block it is emitting into. The current block of the
  builder is left as it is, the callers set it.\<close>

fun runCleanupChain :: "(bb \<times> bb) list \<Rightarrow> bb \<Rightarrow> bb \<Rightarrow> IRState \<Rightarrow> IRState" where
  "runCleanupChain [] p target s = appendTo p (Br target) s"
| "runCleanupChain (c # cs) p target s =
     (let s1 = appendTo p (RunCleanup (fst c) (snd c)) s;
          (nb, s2) = createBlock s1;
          s3 = appendTo p (Br nb) s2
      in runCleanupChain cs nb target s3)"

definition runCleanups :: "nat \<Rightarrow> bb \<Rightarrow> IRState \<Rightarrow> IRState" where
  "runCleanups targetScope continueWith s =
     runCleanupChain (rev (drop targetScope (cleanupScopes s))) (scopebb s) continueWith s"

definition runAllCleanups :: "bb \<Rightarrow> IRState \<Rightarrow> IRState" where
  "runAllCleanups continueWith s = runCleanups 0 continueWith s"

text \<open>Modelled from the spec: \<^verbatim>\<open>ScopeStack::pushCatch\<close> and \<^verbatim>\<open>popCatch\<close>: "maintains
  the active catch-region stack"; popping an empty stack is the internal error
  "catch-region already empty on pop".\<close>

definition pushCatch :: "classdecl \<Rightarrow> bb \<Rightarrow> IRState \<Rightarrow> IRState" where
  "pushCatch classInfo bodyBlock s = s\<lparr>catchScopes := catchScopes s @ [(classInfo, bodyBlock)]\<rparr>"

definition popCatch :: "IRState \<Rightarrow> error + IRState" where
  "popCatch s = (if catchScopes s = [] then Inl (Fatal ''catch scope stack is empty'')
                 else Inr (s\<lparr>catchScopes := butlast (catchScopes s)\<rparr>))"

text \<open>Modelled from the spec: the loop target stack of the scope stack, "per-active-loop
  (continue-block, break-block) pair, addressable by an optional label", each entry with
  "the cleanup depth recorded when that loop was entered". A switch registers a break
  block only (\<^verbatim>\<open>pushBreakTarget\<close>), so its entry has no continue block.\<close>

definition pushLoopTarget :: "stmt_id \<Rightarrow> bb \<Rightarrow> bb \<Rightarrow> IRState \<Rightarrow> IRState" where
  "pushLoopTarget loopStatement continueTarget breakTarget s =
     s\<lparr>loopTargets := loopTargets s @
          [(loopStatement, Some continueTarget, breakTarget, currentCleanupScope s)]\<rparr>"

definition popLoopTarget :: "IRState \<Rightarrow> IRState" where
  "popLoopTarget s = s\<lparr>loopTargets := butlast (loopTargets s)\<rparr>"

definition pushBreakTarget :: "stmt_id \<Rightarrow> bb \<Rightarrow> IRState \<Rightarrow> IRState" where
  "pushBreakTarget switchStatement targetBlock s =
     s\<lparr>loopTargets := loopTargets s @
          [(switchStatement, None, targetBlock, currentCleanupScope s)]\<rparr>"

definition popBreakTarget :: "IRState \<Rightarrow> IRState" where
  "popBreakTarget s = s\<lparr>loopTargets := butlast (loopTargets s)\<rparr>"

text \<open>Modelled from the spec: \<^verbatim>\<open>breakToClosest\<close>, \<^verbatim>\<open>breakToStatement\<close>,
  \<^verbatim>\<open>continueWithClosest\<close> and \<^verbatim>\<open>continueWithLoop\<close>: "look up the matching entry in the
  Loop Target Stack, call runCleanups down to the cleanup depth recorded when that loop
  was entered, and branch to its break/continue block respectively. Fails (compile error)
  if no enclosing loop matches an unlabeled break/continue, or if a labeled jump's target
  cannot be found."\<close>

definition breakToClosest :: "IRState \<Rightarrow> error + IRState" where
  "breakToClosest s =
     (case rev (loopTargets s) of
        [] \<Rightarrow> Inl (Fatal ''break is not inside a loop or switch'')
      | (_, _, breakTarget, depth) # _ \<Rightarrow> Inr (runCleanups depth breakTarget s))"

definition breakToStatement :: "stmt_id \<Rightarrow> IRState \<Rightarrow> error + IRState" where
  "breakToStatement target s =
     (case find (\<lambda>(st, _, _, _). st = target) (rev (loopTargets s)) of
        None \<Rightarrow> Inl (Fatal ''target of labeled break not found'')
      | Some (_, _, breakTarget, depth) \<Rightarrow> Inr (runCleanups depth breakTarget s))"

definition continueWithClosest :: "IRState \<Rightarrow> error + IRState" where
  "continueWithClosest s =
     (case find (\<lambda>(_, c, _, _). c \<noteq> None) (rev (loopTargets s)) of
        Some (_, Some continueTarget, _, depth) \<Rightarrow> Inr (runCleanups depth continueTarget s)
      | _ \<Rightarrow> Inl (Fatal ''continue is not inside a loop''))"

definition continueWithLoop :: "stmt_id \<Rightarrow> IRState \<Rightarrow> error + IRState" where
  "continueWithLoop target s =
     (case find (\<lambda>(st, c, _, _). st = target \<and> c \<noteq> None) (rev (loopTargets s)) of
        Some (_, Some continueTarget, _, depth) \<Rightarrow> Inr (runCleanups depth continueTarget s)
      | _ \<Rightarrow> Inl (Fatal ''target of labeled continue not found''))"

text \<open>Modelled from the spec: the label resolver behind \<^verbatim>\<open>DtoGoto\<close> and
  \<^verbatim>\<open>ScopeStack::addLabelTarget\<close>. A label is registered with its block and "each label's
  cleanup depth at definition time". A goto to a known label runs the cleanups down to
  that depth and branches; "jumping into a scope with live cleanups is an error". A goto
  to a label not yet known leaves a dangling branch \<open>BrLabel\<close>, recorded with the depth
  of the goto and checked when the label is defined.\<close>

definition DtoGoto :: "ident \<Rightarrow> IRState \<Rightarrow> error + IRState" where
  "DtoGoto target s =
     (case map_of (labelTargets s) target of
        Some (labelBB, depth) \<Rightarrow>
          if depth \<le> currentCleanupScope s then Inr (runCleanups depth labelBB s)
          else Inl (Fatal ''goto into a scope with cleanups'')
      | None \<Rightarrow>
          Inr ((emit (BrLabel target) s)
                 \<lparr>unresolvedGotos := unresolvedGotos s @ [(target, currentCleanupScope s)]\<rparr>))"

definition addLabelTarget :: "ident \<Rightarrow> bb \<Rightarrow> IRState \<Rightarrow> error + IRState" where
  "addLabelTarget labelName targetBlock s =
     (if list_ex (\<lambda>(l, depth). l = labelName \<and> depth < currentCleanupScope s)
           (unresolvedGotos s)
      then Inl (Fatal ''goto into a scope with cleanups'')
      else Inr (s\<lparr>labelTargets := (labelName, targetBlock, currentCleanupScope s) # labelTargets s,
                  unresolvedGotos := filter (\<lambda>(l, _). l \<noteq> labelName) (unresolvedGotos s)\<rparr>))"


section \<open>Statements\<close>

text \<open>
  The statement classes the visitor has an overload for. A null pointer in the AST is
  \<open>None\<close>. A loop, a switch and a case carry their identity, since jump targets and
  the code generation fields are looked up by it. \<open>labeltarget\<close> is
  \<^verbatim>\<open>stmt->target->statement\<close> of a labeled break or continue (and
  \<^verbatim>\<open>getRelatedLabeled()\<close> of a for statement): the labeled statement, possibly wrapped
  in scope statements.
\<close>

datatype labeltarget = InScopeStatement labeltarget | TargetStatement stmt_id

fun stripScopes :: "labeltarget \<Rightarrow> stmt_id" where
  "stripScopes (InScopeStatement t) = stripScopes t"
| "stripScopes (TargetStatement st) = st"

datatype VarDeclaration = VarDeclaration (hasInit: bool) (isConst: bool)

text \<open>A case expression: the kinds the switch lowering tells apart. A \<open>VarExp\<close> carries
  its declaration (when the symbol is a variable declaration), the expression to
  evaluate at run time and the constant \<^verbatim>\<open>toConstElem\<close> yields for it.\<close>

datatype caseexp =
    IntegerExp int
  | StringExp string
  | VarExp "VarDeclaration option" expr int

datatype condtype = Integral | ArrayOf TY

datatype stmt =
    CompoundStatement "stmt option list"
  | ReturnStatement "expr option"
  | ExpStatement "expr option"
  | IfStatement bool expr "stmt option" "stmt option"
  | ScopeStatement "stmt option"
  | WhileStatement stmt_id expr "stmt option"
  | DoStatement stmt_id expr "stmt option"
  | ForStatement labeltarget "stmt option" "expr option" "expr option" "stmt option"
  | BreakStatement "labeltarget option"
  | ContinueStatement "labeltarget option"
  | OnScopeStatement
  | TryFinallyStatement "stmt option" "stmt option"
  | TryCatchStatement stmt "catch list"
  | ThrowStatement expr
  | SwitchStatement stmt_id expr condtype "(stmt_id \<times> caseexp) list" "stmt_id option" stmt
  | CaseStatement stmt_id caseexp stmt
  | DefaultStatement stmt_id stmt
  | UnrolledLoopStatement stmt_id "stmt list"
  | ForeachStatement stmt_id bool bool expr "stmt option"
  | ForeachRangeStatement stmt_id bool expr expr "stmt option"
  | LabelStatement ident "stmt option"
  | GotoStatement ident
  | GotoDefaultStatement stmt_id
  | GotoCaseStatement stmt_id
  | WithStatement bool expr "stmt option"
  | SwitchErrorStatement nat
  | AsmStatement
  | CompoundAsmStatement
  | ImportStatement
  | Statement
  | PragmaStatement
and catch = Catch classdecl bool "stmt option"

section \<open>Statements without sub-statements\<close>

subsection \<open>ReturnStatement\<close>

text \<open>
  The value to return (the first half of \<^verbatim>\<open>visit(ReturnStatement)\<close>): \<open>None\<close> for a
  void return and for a return through the sret pointer, which stores the value
  instead. Postblit calls and the ABI rewrites of the value belong to the expression and
  type collaborators and leave a value; as \<open>toElemDtor\<close> registers no cleanup, the
  manual cleanup after an in-place construction has nothing to run.
\<close>

definition returnValueOf :: "expr option \<Rightarrow> IRState \<Rightarrow> error + (llvalue option \<times> IRState)" where
  "returnValueOf exp s =
     (if exp \<noteq> None \<or> isMainFunc s then
        (if returnsVoid s then
           (case exp of
              None \<Rightarrow> Inl (NullPointer ''stmt->exp'')
            | Some e \<Rightarrow> Inr (None, emit (Store (RVal e) (Alloca ''sretArg'')) (toElemDtor e s)))
         else
           (case exp of
              None \<Rightarrow> Inr (Some NullValue, s)
            | Some e \<Rightarrow> Inr (Some (RVal e), toElemDtor e s)))
      else if returnsVoid s then Inr (None, s)
      else Inl (AssertionFailed ''llFunc->getReturnType() == void''))"

text \<open>The second half of \<^verbatim>\<open>visit(ReturnStatement)\<close>, from "If there are no cleanups to
  run" on. The slot is an alloca at the top of the function and not an instruction of
  the current block.\<close>

definition emitReturn :: "llvalue option \<Rightarrow> IRState \<Rightarrow> error + IRState" where
  "emitReturn returnValue s =
     (let useRetValSlot = (currentCleanupScope s \<noteq> 0);
          sharedRetBlockExists = (retBlock s \<noteq> None);
          s1 = (if useRetValSlot \<and> \<not> sharedRetBlockExists then
                  (let (rb, t) = createBlock s;
                       t1 = t\<lparr>retBlock := Some rb\<rparr>
                   in if returnValue \<noteq> None
                      then t1\<lparr>retValSlot := Some (Alloca ''return.slot'')\<rparr> else t1)
                else s)
      in if useRetValSlot \<and> returnValue \<noteq> None \<and> retValSlot s1 = None
         then Inl (NullPointer ''f->retValSlot'')
         else
          (let s2 = (if useRetValSlot then
                       (let sa = (case returnValue of
                                    Some v \<Rightarrow> emit (Store v (the (retValSlot s1))) s1
                                  | None \<Rightarrow> s1);
                            sb = runAllCleanups (the (retBlock sa)) sa
                        in setScope (the (retBlock sb)) sb)
                     else s1);
               s3 = (if \<not> useRetValSlot \<or> \<not> sharedRetBlockExists then
                       (case returnValue of
                          Some v \<Rightarrow>
                            emit (Ret (if useRetValSlot then Load (the (retValSlot s2)) else v)) s2
                        | None \<Rightarrow> emit RetVoid s2)
                     else s2);
               (dummy, s4) = createBlock s3
           in Inr (setScope dummy s4)))"

definition visit_ReturnStatement :: "expr option \<Rightarrow> IRState \<Rightarrow> error + IRState" where
  "visit_ReturnStatement exp s =
     (case returnValueOf exp s of
        Inl e \<Rightarrow> Inl e
      | Inr (returnValue, s1) \<Rightarrow> emitReturn returnValue s1)"

subsection \<open>ExpStatement, ThrowStatement, SwitchErrorStatement\<close>

definition visit_ExpStatement :: "expr option \<Rightarrow> IRState \<Rightarrow> error + IRState" where
  "visit_ExpStatement exp s = (case exp of None \<Rightarrow> Inr s | Some e \<Rightarrow> Inr (toElemDtor e s))"

definition visit_ThrowStatement :: "expr \<Rightarrow> IRState \<Rightarrow> error + IRState" where
  "visit_ThrowStatement exp s =
     (let s1 = toElemDtor exp s;
          s2 = CreateCallOrInvoke ''_d_throw_exception'' [RVal exp] s1;
          s3 = emit Unreachable s2;
          (bb, s4) = createBlock s3
      in Inr (setScope bb s4))"

text \<open>\<open>linnum\<close> is \<^verbatim>\<open>stmt->loc.linnum\<close>; the call gets the module info symbol, cast to a
  pointer to the module info type, and the line number.\<close>

definition visit_SwitchErrorStatement :: "nat \<Rightarrow> IRState \<Rightarrow> error + IRState" where
  "visit_SwitchErrorStatement linnum s =
     Inr (CreateCallOrInvoke ''_d_switch_error''
            [CallResult ''DtoBitCast'' [Global ''moduleInfoSymbol''], ConstInt (int linnum)] s)"

subsection \<open>BreakStatement and ContinueStatement\<close>

definition visit_BreakStatement :: "labeltarget option \<Rightarrow> IRState \<Rightarrow> error + IRState" where
  "visit_BreakStatement ident s =
     (if scopereturned s then Inr s
      else
        (case (case ident of
                 Some target \<Rightarrow> breakToStatement (stripScopes target) s
               | None \<Rightarrow> breakToClosest s) of
           Inl e \<Rightarrow> Inl e
         | Inr s1 \<Rightarrow> (let (bb, s2) = createBlock s1 in Inr (setScope bb s2))))"

definition visit_ContinueStatement :: "labeltarget option \<Rightarrow> IRState \<Rightarrow> error + IRState" where
  "visit_ContinueStatement ident s =
     (case (case ident of
              Some target \<Rightarrow> continueWithLoop (stripScopes target) s
            | None \<Rightarrow> continueWithClosest s) of
        Inl e \<Rightarrow> Inl e
      | Inr s1 \<Rightarrow> (let (bb, s2) = createBlock s1 in Inr (setScope bb s2)))"

subsection \<open>GotoStatement, GotoDefaultStatement, GotoCaseStatement\<close>

definition visit_GotoStatement :: "ident \<Rightarrow> IRState \<Rightarrow> error + IRState" where
  "visit_GotoStatement label s =
     (case DtoGoto label s of
        Inl e \<Rightarrow> Inl e
      | Inr s1 \<Rightarrow> (let (bb, s2) = createBlock s1 in Inr (setScope bb s2)))"

text \<open>\<open>sdefault\<close> is \<^verbatim>\<open>stmt->sw->sdefault\<close>. The branch goes straight to the body block
  of the default statement: the call that would run the enclosing handlers is compiled
  out (\<^verbatim>\<open>#if 0\<close>, "TODO: Store switch scopes").\<close>

definition visit_GotoDefaultStatement :: "stmt_id \<Rightarrow> IRState \<Rightarrow> error + IRState" where
  "visit_GotoDefaultStatement sdefault s =
     (if scopereturned s then Inl (AssertionFailed ''!irs->scopereturned()'')
      else case bodyBB s sdefault of
             None \<Rightarrow> Inl (AssertionFailed ''stmt->sw->sdefault->bodyBB'')
           | Some defbb \<Rightarrow>
               (let s1 = emit (Br defbb) s;
                    (bb, s2) = createBlock s1
                in Inr (setScope bb s2)))"

text \<open>\<open>cs\<close> is \<^verbatim>\<open>stmt->cs\<close>, the case statement jumped to.\<close>

definition visit_GotoCaseStatement :: "stmt_id \<Rightarrow> IRState \<Rightarrow> error + IRState" where
  "visit_GotoCaseStatement cs s =
     (if scopereturned s then Inl (AssertionFailed ''!irs->scopereturned()'')
      else
        (let s1 = (case bodyBB s cs of
                     None \<Rightarrow> (let (gc, t) = createBlock s in t\<lparr>bodyBB := (bodyBB t)(cs \<mapsto> gc)\<rparr>)
                   | Some _ \<Rightarrow> s);
             s2 = emit (Br (the (bodyBB s1 cs))) s1;
             (bb, s3) = createBlock s2
         in Inr (setScope bb s3)))"

subsection \<open>Statements that are errors, forwarded or empty\<close>

definition visit_OnScopeStatement :: "IRState \<Rightarrow> error + IRState" where
  "visit_OnScopeStatement s =
     Inl (Fatal ''Internal Compiler Error: OnScopeStatement should have been lowered by frontend.'')"

definition visit_Statement :: "IRState \<Rightarrow> error + IRState" where
  "visit_Statement s = Inl (Fatal ''Statement type Statement not implemented'')"

definition visit_PragmaStatement :: "IRState \<Rightarrow> error + IRState" where
  "visit_PragmaStatement s = Inl (Fatal ''Statement type PragmaStatement not implemented'')"

definition visit_ImportStatement :: "IRState \<Rightarrow> error + IRState" where
  "visit_ImportStatement s = Inr s"

text \<open>Modelled from the spec: \<^verbatim>\<open>AsmStatement_toIR\<close> and \<^verbatim>\<open>CompoundAsmStatement_toIR\<close>,
  declared in this file and defined elsewhere: "inline-assembly (opaque, forwarded)".\<close>

definition AsmStatement_toIR :: "IRState \<Rightarrow> error + IRState" where
  "AsmStatement_toIR s = Inr (emit (Op ''asm'' []) s)"

definition CompoundAsmStatement_toIR :: "IRState \<Rightarrow> error + IRState" where
  "CompoundAsmStatement_toIR s = Inr (emit (Op ''asm'' []) s)"


section \<open>SwitchStatement: the parts around the body\<close>

text \<open>Constants of the AST: \<^verbatim>\<open>toConstElem\<close> and LLVM's \<^verbatim>\<open>isaConstantInt\<close> (a dynamic cast,
  null for anything that is not an integer constant).\<close>

fun toConstElem :: "caseexp \<Rightarrow> llvalue" where
  "toConstElem (IntegerExp n) = ConstInt n"
| "toConstElem (StringExp str) = ConstStr str"
| "toConstElem (VarExp vd e n) = ConstInt n"

fun isaConstantInt :: "llvalue \<Rightarrow> llvalue option" where
  "isaConstantInt (ConstInt n) = Some (ConstInt n)"
| "isaConstantInt _ = None"

text \<open>The loop that decides \<^verbatim>\<open>useSwitchInst\<close>: a case whose expression is a variable
  without initializer, or not const, is evaluated here and rules out the switch
  instruction.\<close>

fun scanCases :: "(stmt_id \<times> caseexp) list \<Rightarrow> bool \<Rightarrow> IRState \<Rightarrow> bool \<times> IRState" where
  "scanCases [] useSwitchInst s = (useSwitchInst, s)"
| "scanCases ((cs, VarExp (Some vd) e n) # rest) useSwitchInst s =
     (if \<not> hasInit vd \<or> \<not> isConst vd
      then scanCases rest False ((toElemDtor e s)\<lparr>llvmIdx := (llvmIdx s)(cs \<mapsto> RVal e)\<rparr>)
      else scanCases rest useSwitchInst s)"
| "scanCases (_ # rest) useSwitchInst s = scanCases rest useSwitchInst s"

text \<open>\<^verbatim>\<open>struct Case\<close>, "used to build the sorted list of cases".\<close>

record Case =
  str :: string
  index :: nat

text \<open>Modelled from the spec: \<^verbatim>\<open>StringExp::compare\<close>, a method of the frontend that is not
  part of this file: the case values are ordered "lexicographically". Negative, zero or
  positive as the first string is less than, equal to or greater than the second.\<close>

definition StringExp_compare :: "string \<Rightarrow> string \<Rightarrow> int" where
  "StringExp_compare l r = (if l < r then - 1 else if l = r then 0 else 1)"

definition Case_less :: "Case \<Rightarrow> Case \<Rightarrow> bool" where
  "Case_less l r = (StringExp_compare (str l) (str r) < 0)"

text \<open>\<^verbatim>\<open>std::sort(caseArray.begin(), caseArray.end())\<close> with \<^verbatim>\<open>operator<\<close> of \<open>Case\<close>, as
  an insertion sort. The order \<^verbatim>\<open>std::sort\<close> leaves equal elements in is unspecified; the
  frontend rejects duplicate case values.\<close>

fun insertCase :: "Case \<Rightarrow> Case list \<Rightarrow> Case list" where
  "insertCase c [] = [c]"
| "insertCase c (d # ds) = (if Case_less c d then c # d # ds else d # insertCase c ds)"

definition sortCases :: "Case list \<Rightarrow> Case list" where
  "sortCases caseArray = foldr insertCase caseArray []"

text \<open>The loop that fills \<open>caseArray\<close>, with its assertion that every case expression
  is a string.\<close>

fun buildCaseArray :: "(stmt_id \<times> caseexp) list \<Rightarrow> nat \<Rightarrow> error + Case list" where
  "buildCaseArray [] i = Inr []"
| "buildCaseArray ((cs, StringExp s) # rest) i =
     (case buildCaseArray rest (i + 1) of
        Inl e \<Rightarrow> Inl e
      | Inr caseArray \<Rightarrow> Inr (\<lparr>str = s, index = i\<rparr> # caseArray))"
| "buildCaseArray (_ # rest) i = Inl (AssertionFailed ''cs->exp->op == TOKstring'')"

text \<open>"iterate and add indices to cases": the case at position \<open>i\<close> of the sorted array
  gets the index \<open>i\<close>, written to the case statement the entry came from.\<close>

fun addIndices :: "(stmt_id \<times> caseexp) list \<Rightarrow> Case list \<Rightarrow> nat \<Rightarrow> IRState \<Rightarrow> IRState" where
  "addIndices cases [] i s = s"
| "addIndices cases (c # rest) i s =
     addIndices cases rest (i + 1)
       (s\<lparr>llvmIdx := (llvmIdx s)(fst (cases ! index c) \<mapsto> ConstInt (int i))\<rparr>)"

definition stringSwitchTable ::
  "(stmt_id \<times> caseexp) list \<Rightarrow> IRState \<Rightarrow> error + (llvalue \<times> IRState)" where
  "stringSwitchTable cases s =
     (case buildCaseArray cases 0 of
        Inl e \<Rightarrow> Inl e
      | Inr caseArray \<Rightarrow>
          (let sorted = sortCases caseArray;
               s1 = addIndices cases sorted 0 s;
               inits = map str sorted
           in Inr (SwitchTable inits, s1)))"

text \<open>\<^verbatim>\<open>call_string_switch_runtime\<close>: the runtime function is chosen by the element type
  of the condition; the condition is evaluated and the call emitted.\<close>

definition call_string_switch_runtime ::
  "llvalue \<Rightarrow> expr \<Rightarrow> TY \<Rightarrow> IRState \<Rightarrow> error + (llvalue \<times> IRState)" where
  "call_string_switch_runtime table e ty s =
     (if ty \<noteq> Tchar \<and> ty \<noteq> Twchar \<and> ty \<noteq> Tdchar then Inl (Fatal ''not char/wchar/dchar'')
      else
        (let fname = (if ty = Tchar then ''_d_switch_string''
                      else if ty = Twchar then ''_d_switch_ustring''
                      else ''_d_switch_dstring'');
             s1 = toElemDtor e s;
             s2 = CreateCallOrInvoke fname [table, RVal e] s1
         in Inr (CallResult fname [table, RVal e], s2)))"

text \<open>The pairs handed to \<^verbatim>\<open>si->addCase(isaConstantInt(cs->llvmIdx), cs->bodyBB)\<close>; a null
  index or a null body block is a null pointer dereference.\<close>

fun switchCases :: "(stmt_id \<times> caseexp) list \<Rightarrow> IRState \<Rightarrow> error + (llvalue \<times> bb) list" where
  "switchCases [] s = Inr []"
| "switchCases ((cs, exp) # rest) s =
     (case (llvmIdx s cs, bodyBB s cs) of
        (Some idx, Some body) \<Rightarrow>
          (case isaConstantInt idx of
             None \<Rightarrow> Inl (NullPointer ''isaConstantInt(cs->llvmIdx)'')
           | Some c \<Rightarrow>
               (case switchCases rest s of
                  Inl e \<Rightarrow> Inl e
                | Inr others \<Rightarrow> Inr ((c, body) # others)))
      | _ \<Rightarrow> Inl (NullPointer ''cs->llvmIdx or cs->bodyBB''))"

text \<open>With instrumentation every case gets a counter block that branches to the body
  block; the switch instruction targets the counter blocks.\<close>

fun caseCounters :: "(llvalue \<times> bb) list \<Rightarrow> IRState \<Rightarrow> (llvalue \<times> bb) list \<times> IRState" where
  "caseCounters [] s = ([], s)"
| "caseCounters ((idx, body) # rest) s =
     (let (casecntr, s1) = createBlock s;
          s2 = emit (Br body) (setScope casecntr s1);
          (others, s3) = caseCounters rest s2
      in ((idx, casecntr) # others, s3))"

definition emitSwitchInst ::
  "llvalue \<Rightarrow> bb \<Rightarrow> (stmt_id \<times> caseexp) list \<Rightarrow> IRState \<Rightarrow> error + IRState" where
  "emitSwitchInst condVal defaultTarget cases s =
     (case switchCases cases s of
        Inl e \<Rightarrow> Inl e
      | Inr targets \<Rightarrow>
          if \<not> genInstrProf s then Inr (emit (SwitchInst condVal defaultTarget targets) s)
          else
            (let switchbb = scopebb s;
                 (defaultcntr, s1) = createBlock s;
                 s2 = emit (Br defaultTarget) (setScope defaultcntr s1);
                 (counted, s3) = caseCounters targets s2
             in Inr (appendTo switchbb (SwitchInst condVal defaultcntr counted) s3)))"

text \<open>"we can't use switch, so we will use a bunch of br instructions instead": the loop
  over the cases. Each case compares in the current check block and branches to the
  case (or to its counter block) or to a new check block, which becomes current.\<close>

fun compareCases :: "(stmt_id \<times> caseexp) list \<Rightarrow> llvalue \<Rightarrow> IRState \<Rightarrow> error + IRState" where
  "compareCases [] condVal s = Inr s"
| "compareCases ((cs, exp) # rest) condVal s =
     (case (llvmIdx s cs, bodyBB s cs) of
        (Some idx, Some body) \<Rightarrow>
          (let s1 = emit (Op ''icmp eq'' [idx, condVal]) s;
               (nextbb, s2) = createBlock s1;
               (casejumptargetbb, s3) =
                  (if genInstrProf s2 then
                     (let savedbb = scopebb s2;
                          (casecntr, t) = createBlock s2;
                          t1 = emit (Br body) (setScope casecntr t)
                      in (casecntr, setScope savedbb t1))
                   else (body, s2));
               s4 = emit (CondBr (ICmpEQ idx condVal) casejumptargetbb nextbb) s3
           in compareCases rest condVal (setScope nextbb s4))
      | _ \<Rightarrow> Inl (NullPointer ''cs->llvmIdx or cs->bodyBB''))"

definition emitCompareChain ::
  "expr \<Rightarrow> bb \<Rightarrow> (stmt_id \<times> caseexp) list \<Rightarrow> IRState \<Rightarrow> error + IRState" where
  "emitCompareChain condition defaultTarget cases s =
     (let s1 = toElemDtor condition s;
          condVal = RVal condition;
          (nextbb, s2) = createBlock s1;
          s3 = emit (Br nextbb) s2;
          (defaultjumptarget, s4) =
             (if genInstrProf s3 then
                (let (defaultcntr, t) = createBlock s3;
                     t1 = emit (Br defaultTarget) (setScope defaultcntr t)
                 in (defaultcntr, t1))
              else (defaultTarget, s3))
      in case compareCases cases condVal (setScope nextbb s4) of
           Inl e \<Rightarrow> Inl e
         | Inr s5 \<Rightarrow> Inr (emit (Br defaultjumptarget) s5))"

text \<open>Everything after the body of the switch: back in the block the switch started in,
  the dispatch is emitted by one of the two strategies.\<close>

definition emitDispatch ::
  "bool \<Rightarrow> expr \<Rightarrow> condtype \<Rightarrow> (stmt_id \<times> caseexp) list \<Rightarrow> bb \<Rightarrow> IRState \<Rightarrow> error + IRState" where
  "emitDispatch useSwitchInst condition ctype cases defaultTarget s =
     (if useSwitchInst then
        (case ctype of
           Integral \<Rightarrow>
             emitSwitchInst (RVal condition) defaultTarget cases (toElemDtor condition s)
         | ArrayOf ty \<Rightarrow>
             (case stringSwitchTable cases s of
                Inl e \<Rightarrow> Inl e
              | Inr (switchTable, s1) \<Rightarrow>
                  (case call_string_switch_runtime switchTable condition ty s1 of
                     Inl e \<Rightarrow> Inl e
                   | Inr (condVal, s2) \<Rightarrow> emitSwitchInst condVal defaultTarget cases s2)))
      else emitCompareChain condition defaultTarget cases s)"

text \<open>"Reset backend variables to original state".\<close>

definition resetCases :: "(stmt_id \<times> caseexp) list \<Rightarrow> stmt_id option \<Rightarrow> IRState \<Rightarrow> IRState" where
  "resetCases cases sdefault s =
     (let s1 = s\<lparr>bodyBB := (\<lambda>c. if c \<in> set (map fst cases) then None else bodyBB s c),
                 llvmIdx := (\<lambda>c. if c \<in> set (map fst cases) then None else llvmIdx s c)\<rparr>
      in case sdefault of
           None \<Rightarrow> s1
         | Some d \<Rightarrow> s1\<lparr>bodyBB := (bodyBB s1)(d := None)\<rparr>)"

text \<open>The assertions at the start: the code generation fields have been reset.\<close>

definition casesAreReset :: "(stmt_id \<times> caseexp) list \<Rightarrow> stmt_id option \<Rightarrow> IRState \<Rightarrow> bool" where
  "casesAreReset cases sdefault s =
     (list_all (\<lambda>(cs, _). bodyBB s cs = None \<and> llvmIdx s cs = None) cases \<and>
      (case sdefault of None \<Rightarrow> True | Some d \<Rightarrow> bodyBB s d = None))"


section \<open>The visitor\<close>

text \<open>The loop at the end of \<^verbatim>\<open>visit(TryCatchStatement)\<close> that removes the catches.\<close>

fun popCatches :: "nat \<Rightarrow> IRState \<Rightarrow> error + IRState" where
  "popCatches 0 s = Inr s"
| "popCatches (Suc n) s = (case popCatch s of Inl e \<Rightarrow> Inl e | Inr s1 \<Rightarrow> popCatches n s1)"

text \<open>The loop of \<^verbatim>\<open>visit(UnrolledLoopStatement)\<close> that creates one block per statement.\<close>

fun createBlocks :: "nat \<Rightarrow> IRState \<Rightarrow> bb list \<times> IRState" where
  "createBlocks 0 s = ([], s)"
| "createBlocks (Suc n) s =
     (let (b, s1) = createBlock s;
          (bs, s2) = createBlocks n s1
      in (b # bs, s2))"

text \<open>
  \<open>toIR\<close> is \<^verbatim>\<open>Statement_toIR\<close>, the dispatch of \<^verbatim>\<open>ToIRVisitor\<close> on the class of the
  statement; \<open>toIR_opt\<close> is a visit guarded by a null check; \<open>toIR_statements\<close> is the
  loop of a compound statement. \<open>toIR_catches\<close> is the loop over the catches of a
  try/catch, which runs from the last catch to the first (\<^verbatim>\<open>rbegin\<close> to \<^verbatim>\<open>rend\<close>) and
  collects \<open>catchBlocks\<close> in that order; \<open>toIR_unrolled\<close> is the loop over the
  statements of an unrolled loop, from statement \<open>i\<close> on. The try/catch is the one with
  explicit landing pads (\<^verbatim>\<open>useMSVCEH()\<close> false).
\<close>

fun toIR :: "stmt \<Rightarrow> IRState \<Rightarrow> error + IRState"
and toIR_opt :: "stmt option \<Rightarrow> IRState \<Rightarrow> error + IRState"
and toIR_statements :: "stmt option list \<Rightarrow> IRState \<Rightarrow> error + IRState"
and toIR_catches :: "catch list \<Rightarrow> bb \<Rightarrow> IRState \<Rightarrow> error + ((classdecl \<times> bb) list \<times> IRState)"
and toIR_unrolled ::
  "stmt list \<Rightarrow> stmt_id \<Rightarrow> bb list \<Rightarrow> nat \<Rightarrow> nat \<Rightarrow> bb \<Rightarrow> IRState \<Rightarrow> error + IRState"
where
  "toIR (CompoundStatement statements) s = toIR_statements statements s"
| "toIR (ReturnStatement exp) s = visit_ReturnStatement exp s"
| "toIR (ExpStatement exp) s = visit_ExpStatement exp s"
| "toIR (IfStatement match condition ifbody elsebody) s =
     (let s0 = (if match then emit (Op ''DtoRawVarDeclaration'' []) s else s);
          s1 = toElemDtor condition s0;
          (ifbb, s2) = createBlock s1;
          (endbb, s3) = createBlock s2;
          (elsebb, s4) = (if elsebody \<noteq> None then createBlock s3 else (endbb, s3));
          s5 = emit (CondBr (RVal condition) ifbb elsebb) s4
      in case toIR_opt ifbody (setScope ifbb s5) of
           Inl e \<Rightarrow> Inl e
         | Inr s6 \<Rightarrow>
             (let s7 = brIfOpen endbb s6
              in if elsebody \<noteq> None then
                   (case toIR_opt elsebody (setScope elsebb s7) of
                      Inl e \<Rightarrow> Inl e
                    | Inr s8 \<Rightarrow> Inr (setScope endbb (brIfOpen endbb s8)))
                 else Inr (setScope endbb s7)))"
| "toIR (ScopeStatement statement) s = toIR_opt statement s"
| "toIR (WhileStatement sid condition body) s =
     (let (whilebb, s1) = createBlock s;
          (whilebodybb, s2) = createBlock s1;
          (endbb, s3) = createBlock s2;
          s4 = emit (Br whilebb) s3;
          s5 = toElemDtor condition (setScope whilebb s4);
          s6 = emit (CondBr (RVal condition) whilebodybb endbb) s5;
          s7 = pushLoopTarget sid whilebb endbb (setScope whilebodybb s6)
      in case toIR_opt body s7 of
           Inl e \<Rightarrow> Inl e
         | Inr s8 \<Rightarrow> Inr (setScope endbb (brIfOpen whilebb (popLoopTarget s8))))"
| "toIR (DoStatement sid condition body) s =
     (let (dowhilebb, s1) = createBlock s;
          (condbb, s2) = createBlock s1;
          (endbb, s3) = createBlock s2
      in if scopereturned s3 then Inl (AssertionFailed ''!irs->scopereturned()'')
         else
           (let s4 = emit (Br dowhilebb) s3;
                s5 = pushLoopTarget sid condbb endbb (setScope dowhilebb s4)
            in case toIR_opt body s5 of
                 Inl e \<Rightarrow> Inl e
               | Inr s6 \<Rightarrow>
                   (let s7 = emit (Br condbb) (popLoopTarget s6);
                        s8 = toElemDtor condition (setScope condbb s7);
                        s9 = emit (CondBr (RVal condition) dowhilebb endbb) s8
                    in Inr (setScope endbb s9))))"
| "toIR (ForStatement relatedLabeled init condition increment body) s =
     (let (forbb, s1) = createBlock s;
          (forbodybb, s2) = createBlock s1;
          (forincbb, s3) = createBlock s2;
          (endbb, s4) = createBlock s3
      in case toIR_opt init s4 of
           Inl e \<Rightarrow> Inl e
         | Inr s5 \<Rightarrow>
             if scopereturned s5 then Inl (AssertionFailed ''!irs->scopereturned()'')
             else
               (let s6 = emit (Br forbb) s5;
                    s7 = pushLoopTarget (stripScopes relatedLabeled) forincbb endbb s6;
                    s8 = setScope forbb s7;
                    (cond_val, s9) = (case condition of
                                        Some c \<Rightarrow> (RVal c, toElemDtor c s8)
                                      | None \<Rightarrow> (ConstInt 1, s8))
                in if scopereturned s9 then Inl (AssertionFailed ''!irs->scopereturned()'')
                   else
                     (let s10 = emit (CondBr cond_val forbodybb endbb) s9
                      in case toIR_opt body (setScope forbodybb s10) of
                           Inl e \<Rightarrow> Inl e
                         | Inr s11 \<Rightarrow>
                             (let s12 = setScope forincbb (brIfOpen forincbb s11);
                                  s13 = (case increment of
                                           Some i \<Rightarrow> toElemDtor i s12
                                         | None \<Rightarrow> s12);
                                  s14 = popLoopTarget (brIfOpen forbb s13)
                              in Inr (setScope endbb s14)))))"
| "toIR (BreakStatement ident) s = visit_BreakStatement ident s"
| "toIR (ContinueStatement ident) s = visit_ContinueStatement ident s"
| "toIR OnScopeStatement s = visit_OnScopeStatement s"
| "toIR (TryFinallyStatement body finalbody) s =
     (if body = None \<or> finalbody = None then
        (if body \<noteq> None then toIR_opt body s
         else if finalbody \<noteq> None then toIR_opt finalbody s
         else Inr s)
      else
        (let trybb = scopebb s;
             (finallybb, s1) = createBlock s
         in case toIR_opt finalbody (setScope finallybb s1) of
              Inl e \<Rightarrow> Inl e
            | Inr s2 \<Rightarrow>
                (let cleanupBefore = currentCleanupScope s2;
                     s3 = pushCleanup finallybb (scopebb s2) s2
                 in case toIR_opt body (setScope trybb s3) of
                      Inl e \<Rightarrow> Inl e
                    | Inr s4 \<Rightarrow>
                        (let s5 = (if \<not> scopereturned s4 then
                                     (let (successbb, t) = createBlock s4;
                                          t1 = runCleanups cleanupBefore successbb t
                                      in setScope successbb t1)
                                   else s4)
                         in Inr (popCleanups cleanupBefore s5)))))"
| "toIR (TryCatchStatement body catches) s =
     (let trybb = scopebb s;
          (endbb, s1) = createBlock s
      in case toIR_catches catches endbb s1 of
           Inl e \<Rightarrow> Inl e
         | Inr (catchBlocks, s2) \<Rightarrow>
             (let s3 = fold (\<lambda>(classdecl, BB). pushCatch classdecl BB) catchBlocks s2
              in case toIR body (setScope trybb s3) of
                   Inl e \<Rightarrow> Inl e
                 | Inr s4 \<Rightarrow>
                     (case popCatches (length catchBlocks) (brIfOpen endbb s4) of
                        Inl e \<Rightarrow> Inl e
                      | Inr s5 \<Rightarrow> Inr (setScope endbb s5))))"
| "toIR (ThrowStatement exp) s = visit_ThrowStatement exp s"
| "toIR (SwitchStatement sid condition ctype cases sdefault body) s =
     (if \<not> casesAreReset cases sdefault s
      then Inl (AssertionFailed ''cs->bodyBB == nullptr && cs->llvmIdx == nullptr'')
      else
        (let oldbb = scopebb s;
             (useSwitchInst, s1) = scanCases cases True s;
             (bodybb, s2) = createBlock s1;
             (endbb, s3) = createBlock s2;
             (defbb, s4) = (case sdefault of
                              None \<Rightarrow> (None, s3)
                            | Some d \<Rightarrow>
                                (let (b, t) = createBlock s3
                                 in (Some b, t\<lparr>bodyBB := (bodyBB t)(d \<mapsto> b)\<rparr>)));
             s5 = pushBreakTarget sid endbb (setScope bodybb s4)
         in case toIR body s5 of
              Inl e \<Rightarrow> Inl e
            | Inr s6 \<Rightarrow>
                (let s7 = brIfOpen endbb (popBreakTarget s6)
                 in case emitDispatch useSwitchInst condition ctype cases
                           (case defbb of Some d \<Rightarrow> d | None \<Rightarrow> endbb) (setScope oldbb s7) of
                      Inl e \<Rightarrow> Inl e
                    | Inr s8 \<Rightarrow> Inr (resetCases cases sdefault (setScope endbb s8)))))"
| "toIR (CaseStatement cs exp statement) s =
     (let (nbb, s1) = createBlock s;
          s2 = (case bodyBB s1 cs of
                  Some old \<Rightarrow>
                    if getTerminator (block_at s1 old) = None
                    then appendTo old (Br nbb) s1 else s1
                | None \<Rightarrow> s1);
          s3 = s2\<lparr>bodyBB := (bodyBB s2)(cs \<mapsto> nbb)\<rparr>;
          s4 = (if llvmIdx s3 cs = None
                then s3\<lparr>llvmIdx := (llvmIdx s3)(cs := isaConstantInt (toConstElem exp))\<rparr>
                else s3);
          s5 = brIfOpen nbb s4
      in toIR statement (setScope nbb s5))"
| "toIR (DefaultStatement sdefault statement) s =
     (case bodyBB s sdefault of
        None \<Rightarrow> Inl (AssertionFailed ''stmt->bodyBB'')
      | Some old \<Rightarrow>
          (let (nbb, s1) = createBlock s;
               s2 = (if getTerminator (block_at s1 old) = None
                     then appendTo old (Br nbb) s1 else s1);
               s3 = s2\<lparr>bodyBB := (bodyBB s2)(sdefault \<mapsto> nbb)\<rparr>;
               s4 = brIfOpen nbb s3
           in toIR statement (setScope nbb s4)))"
| "toIR (UnrolledLoopStatement sid statements) s =
     (if statements = [] then Inr s
      else
        (let nstmt = length statements;
             (blks, s1) = createBlocks nstmt s;
             (endbb, s2) = createBlock s1;
             s3 = brIfOpen (blks ! 0) s2
         in case toIR_unrolled statements sid blks 0 nstmt endbb s3 of
              Inl e \<Rightarrow> Inl e
            | Inr s4 \<Rightarrow> Inr (setScope endbb (brIfOpen endbb s4))))"
| "toIR (ForeachStatement sid forward byRef aggr body) s =
     (let s1 = toElemDtor aggr s;
          keyvar = Alloca ''foreachkey'';
          niters = CallResult ''DtoArrayLen'' [RVal aggr];
          s2 = emit (Store (if forward then ConstInt 0 else niters) keyvar) s1;
          (condbb, s3) = createBlock s2;
          (bodybb, s4) = createBlock s3;
          (nextbb, s5) = createBlock s4;
          (endbb, s6) = createBlock s5;
          s7 = setScope condbb (emit (Br condbb) s6);
          s8 = (if forward then emit (Op ''icmp ult'' [Load keyvar, niters]) s7
                else emit (Store (CallResult ''sub'' [Load keyvar, ConstInt 1]) keyvar)
                       (emit (Op ''icmp ugt'' [Load keyvar, ConstInt 0]) s7));
          s9 = emit (CondBr (CallResult ''done'' [Load keyvar]) bodybb endbb) s8;
          s10 = emit (Op (if byRef then ''DtoRawVarDeclaration'' else ''DtoAssign'')
                        [CallResult ''gep'' [RVal aggr, Load keyvar]]) (setScope bodybb s9);
          s11 = pushLoopTarget sid nextbb endbb s10
      in case toIR_opt body s11 of
           Inl e \<Rightarrow> Inl e
         | Inr s12 \<Rightarrow>
             (let s13 = setScope nextbb (brIfOpen nextbb (popLoopTarget s12));
                  s14 = (if forward
                         then emit (Store (CallResult ''add'' [Load keyvar, ConstInt 1]) keyvar) s13
                         else s13);
                  s15 = emit (Br condbb) s14
              in Inr (setScope endbb s15)))"
| "toIR (ForeachRangeStatement sid forward lwr upr body) s =
     (let s1 = toElemDtor upr (toElemDtor lwr s);
          keyval = Alloca ''key'';
          s2 = emit (Store (if forward then RVal lwr else RVal upr) keyval) s1;
          (condbb, s3) = createBlock s2;
          (bodybb, s4) = createBlock s3;
          (nextbb, s5) = createBlock s4;
          (endbb, s6) = createBlock s5;
          s7 = setScope condbb (emit (Br condbb) s6);
          s8 = emit (Op ''icmp'' [Load keyval, RVal upr]) s7;
          s9 = emit (CondBr (CallResult ''icmp'' [Load keyval, RVal upr]) bodybb endbb) s8;
          s10 = setScope bodybb s9;
          s11 = (if \<not> forward
                 then emit (Store (CallResult ''sub'' [Load keyval, ConstInt 1]) keyval) s10
                 else s10);
          s12 = pushLoopTarget sid nextbb endbb s11
      in case toIR_opt body s12 of
           Inl e \<Rightarrow> Inl e
         | Inr s13 \<Rightarrow>
             (let s14 = setScope nextbb (brIfOpen nextbb (popLoopTarget s13));
                  s15 = (if forward
                         then emit (Store (CallResult ''add'' [Load keyval, ConstInt 1]) keyval) s14
                         else s14);
                  s16 = emit (Br condbb) s15
              in Inr (setScope endbb s16)))"
| "toIR (LabelStatement ident statement) s =
     (case (if asmBlock s then Inr (s\<lparr>asmLabels := asmLabels s @ [ident]\<rparr>)
            else
              (let (labelBB, s1) = createBlock s
               in case addLabelTarget ident labelBB s1 of
                    Inl e \<Rightarrow> Inl e
                  | Inr s2 \<Rightarrow> Inr (setScope labelBB (brIfOpen labelBB s2)))) of
        Inl e \<Rightarrow> Inl e
      | Inr s3 \<Rightarrow> toIR_opt statement s3)"
| "toIR (GotoStatement label) s = visit_GotoStatement label s"
| "toIR (GotoDefaultStatement sdefault) s = visit_GotoDefaultStatement sdefault s"
| "toIR (GotoCaseStatement cs) s = visit_GotoCaseStatement cs s"
| "toIR (WithStatement wthis exp body) s =
     toIR_opt body
       (if wthis then emit (Store (RVal exp) (Alloca ''wthis'')) (toElemDtor exp s) else s)"
| "toIR (SwitchErrorStatement linnum) s = visit_SwitchErrorStatement linnum s"
| "toIR AsmStatement s = AsmStatement_toIR s"
| "toIR CompoundAsmStatement s = CompoundAsmStatement_toIR s"
| "toIR ImportStatement s = visit_ImportStatement s"
| "toIR Statement s = visit_Statement s"
| "toIR PragmaStatement s = visit_PragmaStatement s"
| "toIR_opt None s = Inr s"
| "toIR_opt (Some st) s = toIR st s"
| "toIR_statements [] s = Inr s"
| "toIR_statements (st # rest) s =
     (case toIR_opt st s of
        Inl e \<Rightarrow> Inl e
      | Inr s1 \<Rightarrow> toIR_statements rest s1)"
| "toIR_catches [] endbb s = Inr ([], s)"
| "toIR_catches (Catch type var handler # earlier) endbb s =
     (case toIR_catches earlier endbb s of
        Inl e \<Rightarrow> Inl e
      | Inr (catchBlocks, s1) \<Rightarrow>
          (let (catchBB, s2) = createBlock s1;
               throwableObj = CallResult ''_d_eh_enter_catch'' [Load (Alloca ''eh.ptr'')];
               s3 = emit (Op ''_d_eh_enter_catch'' [Load (Alloca ''eh.ptr'')]) (setScope catchBB s2);
               s4 = (if var then emit (Store throwableObj (Alloca ''var'')) s3 else s3)
           in case toIR_opt handler s4 of
                Inl e \<Rightarrow> Inl e
              | Inr s5 \<Rightarrow> Inr (catchBlocks @ [(type, catchBB)], brIfOpen endbb s5)))"
| "toIR_unrolled [] sid blks i nstmt endbb s = Inr s"
| "toIR_unrolled (st # rest) sid blks i nstmt endbb s =
     (let thisbb = blks ! i;
          nextbb = (if i + 1 = nstmt then endbb else blks ! (i + 1));
          s1 = pushLoopTarget sid nextbb endbb (setScope thisbb s)
      in case toIR st s1 of
           Inl e \<Rightarrow> Inl e
         | Inr s2 \<Rightarrow>
             toIR_unrolled rest sid blks (i + 1) nstmt endbb (brIfOpen nextbb (popLoopTarget s2)))"

section \<open>Notions used in the statements\<close>

text \<open>Two states agree on the three stacks of the scope stack.\<close>

definition sameStacks :: "IRState \<Rightarrow> IRState \<Rightarrow> bool" where
  "sameStacks s s' \<longleftrightarrow> cleanupScopes s' = cleanupScopes s \<and> catchScopes s' = catchScopes s \<and> loopTargets s' = loopTargets s"

text \<open>
  The code \<open>runCleanupChain\<close> leaves behind, as a list of instruction sequences: the
  first is appended to the block the chain starts in, the others are the blocks the
  chain creates, numbered from \<open>n\<close>. Read in order they run every cleanup once, in
  the order given, and end in the branch to the target.
\<close>

fun chainCode :: "(bb \<times> bb) list \<Rightarrow> bb \<Rightarrow> bb \<Rightarrow> instr list list" where
  "chainCode [] n target = [[Br target]]"
| "chainCode (c # cs) n target = [RunCleanup (fst c) (snd c), Br n] # chainCode cs (Suc n) target"

section \<open>Concrete inputs\<close>

text \<open>A function whose lowering has just begun: one empty entry block, nothing on the
  scope stack, a value-returning function that is not \<^verbatim>\<open>main\<close>.\<close>

definition emptyFunction :: IRState where
  "emptyFunction = \<lparr>blocks = [[]], scopebb = 0, cleanupScopes = [], catchScopes = [],
     loopTargets = [], labelTargets = [], unresolvedGotos = [], retBlock = None,
     retValSlot = None, bodyBB = (\<lambda>_. None), llvmIdx = (\<lambda>_. None), asmLabels = [],
     returnsVoid = False, isMainFunc = False, genInstrProf = False, asmBlock = False\<rparr>"

text \<open>A state inside a loop (statement 7, continue and break block 1) with one pending
  cleanup, whose current block 0 already ends in a branch.\<close>

definition terminatedInLoop :: IRState where
  "terminatedInLoop = emptyFunction\<lparr>blocks := [[Br 1], [], []], cleanupScopes := [(2, 2)],
     loopTargets := [(7, Some 1, 1, 0)]\<rparr>"



text \<open>The return instructions of a function: \<open>numReturns\<close> counts them over all
  blocks.\<close>

fun isReturn :: "instr \<Rightarrow> bool" where
  "isReturn (Ret _) = True"
| "isReturn RetVoid = True"
| "isReturn _ = False"

definition numReturns :: "IRState \<Rightarrow> nat" where
  "numReturns s = length (filter isReturn (concat (blocks s)))"

text \<open>A state inside the try part of a try/finally: the finally code is in block 1 and
  registered as the one pending cleanup; the current block 0 is empty.\<close>

definition insideTry :: IRState where
  "insideTry = emptyFunction\<lparr>blocks := [[], [Eval (Expr 9)]], cleanupScopes := [(1, 1)]\<rparr>"


text \<open>A block is terminated when \<^verbatim>\<open>getTerminator\<close> finds a terminator.\<close>

definition terminated :: "instr list \<Rightarrow> bool" where
  "terminated b \<longleftrightarrow> getTerminator b \<noteq> None"


section \<open>Scope stack discipline\<close>

text \<open>Lowering a statement leaves the three stacks of the scope stack as it found them:
  what a statement pushes it pops. The lemmas of this section establish that for every
  part of the visitor.\<close>

lemma stacks_appendTo [simp]:
  "cleanupScopes (appendTo b i s) = cleanupScopes s"
  "catchScopes (appendTo b i s) = catchScopes s"
  "loopTargets (appendTo b i s) = loopTargets s"
  by (simp_all add: appendTo_def)

lemma stacks_emit [simp]:
  "cleanupScopes (emit i s) = cleanupScopes s"
  "catchScopes (emit i s) = catchScopes s"
  "loopTargets (emit i s) = loopTargets s"
  by (simp_all add: emit_def)

lemma stacks_setScope [simp]:
  "cleanupScopes (setScope b s) = cleanupScopes s"
  "catchScopes (setScope b s) = catchScopes s"
  "loopTargets (setScope b s) = loopTargets s"
  by (simp_all add: setScope_def)

lemma stacks_createBlock [simp]:
  "cleanupScopes (snd (createBlock s)) = cleanupScopes s"
  "catchScopes (snd (createBlock s)) = catchScopes s"
  "loopTargets (snd (createBlock s)) = loopTargets s"
  by (simp_all add: createBlock_def)

lemma stacks_brIfOpen [simp]:
  "cleanupScopes (brIfOpen b s) = cleanupScopes s"
  "catchScopes (brIfOpen b s) = catchScopes s"
  "loopTargets (brIfOpen b s) = loopTargets s"
  by (simp_all add: brIfOpen_def)

lemma stacks_toElemDtor [simp]:
  "cleanupScopes (toElemDtor e s) = cleanupScopes s"
  "catchScopes (toElemDtor e s) = catchScopes s"
  "loopTargets (toElemDtor e s) = loopTargets s"
  by (simp_all add: toElemDtor_def)

lemma stacks_CreateCallOrInvoke [simp]:
  "cleanupScopes (CreateCallOrInvoke f a s) = cleanupScopes s"
  "catchScopes (CreateCallOrInvoke f a s) = catchScopes s"
  "loopTargets (CreateCallOrInvoke f a s) = loopTargets s"
  by (simp_all add: CreateCallOrInvoke_def)

lemma stacks_runCleanupChain [simp]:
  "cleanupScopes (runCleanupChain cs p t s) = cleanupScopes s"
  "catchScopes (runCleanupChain cs p t s) = catchScopes s"
  "loopTargets (runCleanupChain cs p t s) = loopTargets s"
  by (induction cs p t s rule: runCleanupChain.induct; simp add: Let_def split: prod.splits; simp add: createBlock_def; fastforce)+

lemma stacks_runCleanups [simp]:
  "cleanupScopes (runCleanups d t s) = cleanupScopes s"
  "catchScopes (runCleanups d t s) = catchScopes s"
  "loopTargets (runCleanups d t s) = loopTargets s"
  by (simp_all add: runCleanups_def)

lemma stacks_pushpop [simp]:
  "cleanupScopes (pushLoopTarget a b c s) = cleanupScopes s"
  "catchScopes (pushLoopTarget a b c s) = catchScopes s"
  "loopTargets (pushLoopTarget a b c s) = loopTargets s @ [(a, Some b, c, length (cleanupScopes s))]"
  "cleanupScopes (pushBreakTarget a c s) = cleanupScopes s"
  "catchScopes (pushBreakTarget a c s) = catchScopes s"
  "loopTargets (pushBreakTarget a c s) = loopTargets s @ [(a, None, c, length (cleanupScopes s))]"
  "cleanupScopes (popLoopTarget s) = cleanupScopes s"
  "catchScopes (popLoopTarget s) = catchScopes s"
  "loopTargets (popLoopTarget s) = butlast (loopTargets s)"
  "cleanupScopes (popBreakTarget s) = cleanupScopes s"
  "catchScopes (popBreakTarget s) = catchScopes s"
  "loopTargets (popBreakTarget s) = butlast (loopTargets s)"
  "cleanupScopes (pushCleanup b e s) = cleanupScopes s @ [(b, e)]"
  "catchScopes (pushCleanup b e s) = catchScopes s"
  "loopTargets (pushCleanup b e s) = loopTargets s"
  "cleanupScopes (popCleanups n s) = take n (cleanupScopes s)"
  "catchScopes (popCleanups n s) = catchScopes s"
  "loopTargets (popCleanups n s) = loopTargets s"
  "cleanupScopes (pushCatch cd b s) = cleanupScopes s"
  "catchScopes (pushCatch cd b s) = catchScopes s @ [(cd, b)]"
  "loopTargets (pushCatch cd b s) = loopTargets s"
  by (simp_all add: pushLoopTarget_def pushBreakTarget_def popLoopTarget_def popBreakTarget_def
      pushCleanup_def popCleanups_def pushCatch_def currentCleanupScope_def)

lemma stacks_visit_Return:
  "visit_ReturnStatement exp s = Inr s' \<Longrightarrow>
     cleanupScopes s' = cleanupScopes s \<and> catchScopes s' = catchScopes s \<and> loopTargets s' = loopTargets s"
  by (auto simp: visit_ReturnStatement_def returnValueOf_def emitReturn_def Let_def runAllCleanups_def createBlock_def
      split: sum.splits prod.splits if_splits option.splits)

lemma stacks_jumps:
  "breakToClosest s = Inr s' \<Longrightarrow> cleanupScopes s' = cleanupScopes s \<and> catchScopes s' = catchScopes s \<and> loopTargets s' = loopTargets s"
  "breakToStatement t s = Inr s' \<Longrightarrow> cleanupScopes s' = cleanupScopes s \<and> catchScopes s' = catchScopes s \<and> loopTargets s' = loopTargets s"
  "continueWithClosest s = Inr s' \<Longrightarrow> cleanupScopes s' = cleanupScopes s \<and> catchScopes s' = catchScopes s \<and> loopTargets s' = loopTargets s"
  "continueWithLoop t s = Inr s' \<Longrightarrow> cleanupScopes s' = cleanupScopes s \<and> catchScopes s' = catchScopes s \<and> loopTargets s' = loopTargets s"
  by (auto simp: breakToClosest_def breakToStatement_def continueWithClosest_def continueWithLoop_def
      split: list.splits option.splits prod.splits)

lemma stacks_visit_Break:
  "visit_BreakStatement i s = Inr s' \<Longrightarrow> cleanupScopes s' = cleanupScopes s \<and> catchScopes s' = catchScopes s \<and> loopTargets s' = loopTargets s"
  by (auto simp: visit_BreakStatement_def Let_def createBlock_def dest: stacks_jumps
      split: sum.splits prod.splits if_splits option.splits)

lemma stacks_visit_Continue:
  "visit_ContinueStatement i s = Inr s' \<Longrightarrow> cleanupScopes s' = cleanupScopes s \<and> catchScopes s' = catchScopes s \<and> loopTargets s' = loopTargets s"
  by (auto simp: visit_ContinueStatement_def Let_def createBlock_def dest: stacks_jumps
      split: sum.splits prod.splits if_splits option.splits)

lemma stacks_visit_Goto:
  "visit_GotoStatement l s = Inr s' \<Longrightarrow> cleanupScopes s' = cleanupScopes s \<and> catchScopes s' = catchScopes s \<and> loopTargets s' = loopTargets s"
  by (auto simp: visit_GotoStatement_def DtoGoto_def Let_def createBlock_def
      split: sum.splits prod.splits if_splits option.splits)

lemma stacks_visit_GotoDefault:
  "visit_GotoDefaultStatement l s = Inr s' \<Longrightarrow> cleanupScopes s' = cleanupScopes s \<and> catchScopes s' = catchScopes s \<and> loopTargets s' = loopTargets s"
  by (auto simp: visit_GotoDefaultStatement_def Let_def createBlock_def
      split: sum.splits prod.splits if_splits option.splits)

lemma stacks_visit_GotoCase:
  "visit_GotoCaseStatement l s = Inr s' \<Longrightarrow> cleanupScopes s' = cleanupScopes s \<and> catchScopes s' = catchScopes s \<and> loopTargets s' = loopTargets s"
  by (auto simp: visit_GotoCaseStatement_def Let_def createBlock_def
      split: sum.splits prod.splits if_splits option.splits)

lemma stacks_visit_Throw:
  "visit_ThrowStatement l s = Inr s' \<Longrightarrow> cleanupScopes s' = cleanupScopes s \<and> catchScopes s' = catchScopes s \<and> loopTargets s' = loopTargets s"
  by (auto simp: visit_ThrowStatement_def Let_def createBlock_def
      split: sum.splits prod.splits if_splits option.splits)

lemma stacks_visit_misc:
  "visit_ExpStatement e s = Inr s' \<Longrightarrow> cleanupScopes s' = cleanupScopes s \<and> catchScopes s' = catchScopes s \<and> loopTargets s' = loopTargets s"
  "visit_SwitchErrorStatement n s = Inr s' \<Longrightarrow> cleanupScopes s' = cleanupScopes s \<and> catchScopes s' = catchScopes s \<and> loopTargets s' = loopTargets s"
  "AsmStatement_toIR s = Inr s' \<Longrightarrow> cleanupScopes s' = cleanupScopes s \<and> catchScopes s' = catchScopes s \<and> loopTargets s' = loopTargets s"
  "CompoundAsmStatement_toIR s = Inr s' \<Longrightarrow> cleanupScopes s' = cleanupScopes s \<and> catchScopes s' = catchScopes s \<and> loopTargets s' = loopTargets s"
  "visit_ImportStatement s = Inr s' \<Longrightarrow> cleanupScopes s' = cleanupScopes s \<and> catchScopes s' = catchScopes s \<and> loopTargets s' = loopTargets s"
  by (auto simp: visit_ExpStatement_def visit_SwitchErrorStatement_def AsmStatement_toIR_def
       CompoundAsmStatement_toIR_def visit_ImportStatement_def split: option.splits)

lemma stacks_createBlock_eq:
  "createBlock s = (b, s') \<Longrightarrow> cleanupScopes s' = cleanupScopes s \<and> catchScopes s' = catchScopes s \<and> loopTargets s' = loopTargets s"
  by (auto simp: createBlock_def)

lemma stacks_scanCases:
  "scanCases cases u s = (r, s') \<Longrightarrow> cleanupScopes s' = cleanupScopes s \<and> catchScopes s' = catchScopes s \<and> loopTargets s' = loopTargets s"
  by (induction cases u s rule: scanCases.induct) (auto split: if_splits)

lemma stacks_addIndices [simp]:
  "cleanupScopes (addIndices cases cs i s) = cleanupScopes s"
  "catchScopes (addIndices cases cs i s) = catchScopes s"
  "loopTargets (addIndices cases cs i s) = loopTargets s"
  by (induction cases cs i s rule: addIndices.induct; simp)+

lemma stacks_caseCounters:
  "caseCounters ts s = (r, s') \<Longrightarrow> cleanupScopes s' = cleanupScopes s \<and> catchScopes s' = catchScopes s \<and> loopTargets s' = loopTargets s"
proof (induction ts s arbitrary: r s' rule: caseCounters.induct)
  case (1 s)
  then show ?case by simp
next
  case (2 idx body rest s)
  obtain c s1 where c: "createBlock s = (c, s1)" by (cases "createBlock s")
  obtain others s3 where r: "caseCounters rest (emit (Br body) (setScope c s1)) = (others, s3)"
    by (cases "caseCounters rest (emit (Br body) (setScope c s1))")
  from "2.prems" c r have "s' = s3" by (simp add: Let_def)
  moreover from "2.IH"[OF refl c[symmetric] refl r] stacks_createBlock_eq[OF c]
  have "cleanupScopes s3 = cleanupScopes s \<and> catchScopes s3 = catchScopes s \<and> loopTargets s3 = loopTargets s"
    by simp
  ultimately show ?case by simp
qed

lemma stacks_compareCases:
  "compareCases cases c s = Inr s' \<Longrightarrow> cleanupScopes s' = cleanupScopes s \<and> catchScopes s' = catchScopes s \<and> loopTargets s' = loopTargets s"
  by (induction cases c s rule: compareCases.induct)
     (auto simp: Let_def createBlock_def split: option.splits prod.splits if_splits)

lemma stacks_emitSwitchInst:
  "emitSwitchInst c d cases s = Inr s' \<Longrightarrow> cleanupScopes s' = cleanupScopes s \<and> catchScopes s' = catchScopes s \<and> loopTargets s' = loopTargets s"
  by (auto simp: emitSwitchInst_def Let_def dest!: stacks_caseCounters stacks_createBlock_eq
        split: sum.splits prod.splits if_splits)

lemma stacks_emitCompareChain:
  "emitCompareChain c d cases s = Inr s' \<Longrightarrow> cleanupScopes s' = cleanupScopes s \<and> catchScopes s' = catchScopes s \<and> loopTargets s' = loopTargets s"
  by (auto simp: emitCompareChain_def Let_def dest!: stacks_compareCases stacks_createBlock_eq
        split: sum.splits prod.splits if_splits)

lemma stacks_stringSwitchTable:
  "stringSwitchTable cases s = Inr (t, s') \<Longrightarrow> cleanupScopes s' = cleanupScopes s \<and> catchScopes s' = catchScopes s \<and> loopTargets s' = loopTargets s"
  by (auto simp: stringSwitchTable_def Let_def split: sum.splits)

lemma stacks_call_string_switch_runtime:
  "call_string_switch_runtime t e ty s = Inr (v, s') \<Longrightarrow> cleanupScopes s' = cleanupScopes s \<and> catchScopes s' = catchScopes s \<and> loopTargets s' = loopTargets s"
  by (auto simp: call_string_switch_runtime_def Let_def split: if_splits)

lemma stacks_emitDispatch:
  "emitDispatch u c ty cases d s = Inr s' \<Longrightarrow> cleanupScopes s' = cleanupScopes s \<and> catchScopes s' = catchScopes s \<and> loopTargets s' = loopTargets s"
  by (auto simp: emitDispatch_def
        dest!: stacks_emitSwitchInst stacks_emitCompareChain stacks_stringSwitchTable stacks_call_string_switch_runtime
        split: condtype.splits sum.splits prod.splits if_splits)

lemma stacks_resetCases [simp]:
  "cleanupScopes (resetCases cases d s) = cleanupScopes s"
  "catchScopes (resetCases cases d s) = catchScopes s"
  "loopTargets (resetCases cases d s) = loopTargets s"
  by (simp_all add: resetCases_def Let_def split: option.splits)

lemma fold_pushCatch_stacks [simp]:
  "catchScopes (fold (\<lambda>(classdecl, BB). pushCatch classdecl BB) cbs s) = catchScopes s @ cbs"
  "cleanupScopes (fold (\<lambda>(classdecl, BB). pushCatch classdecl BB) cbs s) = cleanupScopes s"
  "loopTargets (fold (\<lambda>(classdecl, BB). pushCatch classdecl BB) cbs s) = loopTargets s"
  by (induction cbs arbitrary: s; auto)+

lemma sameStacks_refl [simp]: "sameStacks s s"
  by (simp add: sameStacks_def)

lemmas leaf_stacks = stacks_visit_Return stacks_visit_Break stacks_visit_Continue stacks_visit_Goto
  stacks_visit_GotoDefault stacks_visit_GotoCase stacks_visit_Throw stacks_visit_misc

lemma sameStacksD:
  "sameStacks s s' \<Longrightarrow> cleanupScopes s' = cleanupScopes s \<and> catchScopes s' = catchScopes s \<and> loopTargets s' = loopTargets s"
  by (simp add: sameStacks_def)

lemma opt_stacks:
  assumes "toIR_opt sto s = Inr s'"
    and "\<And>st s s'. st \<in> set_option sto \<Longrightarrow> toIR st s = Inr s' \<Longrightarrow> sameStacks s s'"
  shows "cleanupScopes s' = cleanupScopes s \<and> catchScopes s' = catchScopes s \<and> loopTargets s' = loopTargets s"
  using assms by (cases sto) (auto simp: sameStacks_def)

lemma statements_stacks:
  assumes "toIR_statements sts s = Inr s'"
    and "\<And>sto st s s'. sto \<in> set sts \<Longrightarrow> st \<in> set_option sto \<Longrightarrow> toIR st s = Inr s' \<Longrightarrow> sameStacks s s'"
  shows "sameStacks s s'"
  using assms
proof (induction sts arbitrary: s)
  case Nil
  then show ?case by simp
next
  case (Cons a sts)
  from Cons.prems(1) obtain s1 where a: "toIR_opt a s = Inr s1" and r: "toIR_statements sts s1 = Inr s'"
    by (auto split: sum.splits)
  have "sameStacks s1 s'" using r Cons.prems(2) by (intro Cons.IH) auto
  moreover have "cleanupScopes s1 = cleanupScopes s \<and> catchScopes s1 = catchScopes s \<and> loopTargets s1 = loopTargets s"
    using a by (rule opt_stacks) (rule Cons.prems(2), auto)
  ultimately show ?case by (simp add: sameStacks_def)
qed

lemma unrolled_stacks:
  assumes "toIR_unrolled sts sid blks i n endbb s = Inr s'"
    and "\<And>st s s'. st \<in> set sts \<Longrightarrow> toIR st s = Inr s' \<Longrightarrow> sameStacks s s'"
  shows "sameStacks s s'"
  using assms
proof (induction sts arbitrary: s i)
  case Nil
  then show ?case by simp
next
  case (Cons a sts)
  let ?next = "if i + 1 = n then endbb else blks ! (i + 1)"
  let ?s1 = "pushLoopTarget sid ?next endbb (setScope (blks ! i) s)"
  from Cons.prems(1) obtain s2 where a: "toIR a ?s1 = Inr s2"
    and r: "toIR_unrolled sts sid blks (i + 1) n endbb (brIfOpen ?next (popLoopTarget s2)) = Inr s'"
    by (auto simp: Let_def split: sum.splits)
  have "sameStacks (brIfOpen ?next (popLoopTarget s2)) s'" using r Cons.prems(2) by (intro Cons.IH) auto
  moreover have "sameStacks ?s1 s2" using a by (intro Cons.prems(2)) auto
  ultimately show ?case by (simp add: sameStacks_def)
qed

lemma catches_Cons:
  "toIR_catches (c # earlier) endbb s =
     (case toIR_catches earlier endbb s of
        Inl e \<Rightarrow> Inl e
      | Inr (catchBlocks, s1) \<Rightarrow>
          (case toIR_catches [c] endbb s1 of
             Inl e \<Rightarrow> Inl e
           | Inr (cb, s2) \<Rightarrow> Inr (catchBlocks @ cb, s2)))"
  by (cases c) (auto simp: Let_def split: sum.splits prod.splits)

lemma catches_stacks:
  assumes "toIR_catches cs endbb s = Inr (cbs, s')"
    and "\<And>c endbb s cbs s'. c \<in> set cs \<Longrightarrow> toIR_catches [c] endbb s = Inr (cbs, s') \<Longrightarrow> sameStacks s s'"
  shows "sameStacks s s'"
  using assms
proof (induction cs arbitrary: cbs s')
  case Nil
  then show ?case by simp
next
  case (Cons c cs)
  from Cons.prems(1) obtain cb1 s1 cb2 where a: "toIR_catches cs endbb s = Inr (cb1, s1)"
    and b: "toIR_catches [c] endbb s1 = Inr (cb2, s')"
    unfolding catches_Cons[of c cs] by (auto split: sum.splits prod.splits)
  have "sameStacks s s1" by (rule Cons.IH[OF a]) (rule Cons.prems(2), simp_all)
  moreover have "sameStacks s1 s'" by (rule Cons.prems(2)[OF _ b]) simp
  ultimately show ?case by (simp add: sameStacks_def)
qed

lemma popCatches_stacks:
  "popCatches n s = Inr s' \<Longrightarrow>
     n \<le> length (catchScopes s) \<and> catchScopes s' = take (length (catchScopes s) - n) (catchScopes s) \<and>
     cleanupScopes s' = cleanupScopes s \<and> loopTargets s' = loopTargets s"
proof (induction n arbitrary: s)
  case 0
  then show ?case by simp
next
  case (Suc n)
  show ?case
  proof (cases "catchScopes s = []")
    case True
    with Suc.prems show ?thesis by (simp add: popCatch_def)
  next
    case False
    let ?s1 = "s\<lparr>catchScopes := butlast (catchScopes s)\<rparr>"
    from False Suc.prems have "popCatches n ?s1 = Inr s'" by (simp add: popCatch_def)
    from Suc.IH[OF this] have a: "n \<le> length (catchScopes s) - 1"
      and b: "catchScopes s' = take (length (catchScopes s) - 1 - n) (butlast (catchScopes s))"
      and c: "cleanupScopes s' = cleanupScopes s" "loopTargets s' = loopTargets s" by simp_all
    from False have "length (catchScopes s) \<ge> 1" by (cases "catchScopes s") auto
    with a have "Suc n \<le> length (catchScopes s)" by arith
    moreover have "take (length (catchScopes s) - 1 - n) (butlast (catchScopes s)) = take (length (catchScopes s) - Suc n) (catchScopes s)"
      by (simp add: butlast_conv_take)
    ultimately show ?thesis using b c by simp
  qed
qed

lemma toIR_sameStacks_aux:
  "toIR st s = Inr s' \<Longrightarrow> sameStacks s s'"
  "toIR_catches [c] endbb s = Inr (cbs, s') \<Longrightarrow> sameStacks s s'"
proof (induction st and c arbitrary: s s' and endbb s cbs s')
  case (CompoundStatement x)
  then show ?case by (auto intro: statements_stacks)
next
  case (ReturnStatement x)
  then show ?case
    by (auto simp: sameStacks_def visit_OnScopeStatement_def visit_Statement_def visit_PragmaStatement_def dest: leaf_stacks)
next
  case (ExpStatement x)
  then show ?case
    by (auto simp: sameStacks_def visit_OnScopeStatement_def visit_Statement_def visit_PragmaStatement_def dest: leaf_stacks)
next
  case (IfStatement match cond ifbody elsebody)
  have ih: "toIR_opt ifbody s = Inr s' \<Longrightarrow> cleanupScopes s' = cleanupScopes s \<and> catchScopes s' = catchScopes s \<and> loopTargets s' = loopTargets s" "toIR_opt elsebody s = Inr s' \<Longrightarrow> cleanupScopes s' = cleanupScopes s \<and> catchScopes s' = catchScopes s \<and> loopTargets s' = loopTargets s" for s s'
    by (erule opt_stacks, erule (1) IfStatement.IH)+
  have ih': "toIR st s = Inr s' \<Longrightarrow> st \<in> set_option ifbody \<union> set_option elsebody \<Longrightarrow> cleanupScopes s' = cleanupScopes s \<and> catchScopes s' = catchScopes s \<and> loopTargets s' = loopTargets s" for st s s'
    using IfStatement.IH by (auto simp: sameStacks_def)
  from IfStatement.prems show ?case
    by (auto simp: Let_def createBlock_def sameStacks_def  split: prod.splits sum.splits if_splits option.splits dest!: ih ih' )
next
  case (ScopeStatement body)
  have ih: "toIR_opt body s = Inr s' \<Longrightarrow> cleanupScopes s' = cleanupScopes s \<and> catchScopes s' = catchScopes s \<and> loopTargets s' = loopTargets s" for s s'
    by (erule opt_stacks, erule (1) ScopeStatement.IH)+
  have ih': "toIR st s = Inr s' \<Longrightarrow> st \<in> set_option body \<Longrightarrow> cleanupScopes s' = cleanupScopes s \<and> catchScopes s' = catchScopes s \<and> loopTargets s' = loopTargets s" for st s s'
    using ScopeStatement.IH by (auto simp: sameStacks_def)
  from ScopeStatement.prems show ?case
    by (auto simp: Let_def createBlock_def sameStacks_def  split: prod.splits sum.splits if_splits option.splits dest!: ih ih' )
next
  case (WhileStatement sid cond body)
  have ih: "toIR_opt body s = Inr s' \<Longrightarrow> cleanupScopes s' = cleanupScopes s \<and> catchScopes s' = catchScopes s \<and> loopTargets s' = loopTargets s" for s s'
    by (erule opt_stacks, erule (1) WhileStatement.IH)+
  have ih': "toIR st s = Inr s' \<Longrightarrow> st \<in> set_option body \<Longrightarrow> cleanupScopes s' = cleanupScopes s \<and> catchScopes s' = catchScopes s \<and> loopTargets s' = loopTargets s" for st s s'
    using WhileStatement.IH by (auto simp: sameStacks_def)
  from WhileStatement.prems show ?case
    by (auto simp: Let_def createBlock_def sameStacks_def  split: prod.splits sum.splits if_splits option.splits dest!: ih ih' )
next
  case (DoStatement sid cond body)
  have ih: "toIR_opt body s = Inr s' \<Longrightarrow> cleanupScopes s' = cleanupScopes s \<and> catchScopes s' = catchScopes s \<and> loopTargets s' = loopTargets s" for s s'
    by (erule opt_stacks, erule (1) DoStatement.IH)+
  have ih': "toIR st s = Inr s' \<Longrightarrow> st \<in> set_option body \<Longrightarrow> cleanupScopes s' = cleanupScopes s \<and> catchScopes s' = catchScopes s \<and> loopTargets s' = loopTargets s" for st s s'
    using DoStatement.IH by (auto simp: sameStacks_def)
  from DoStatement.prems show ?case
    by (auto simp: Let_def createBlock_def sameStacks_def  split: prod.splits sum.splits if_splits option.splits dest!: ih ih' )
next
  case (ForStatement rl init cond incr body)
  have ih: "toIR_opt init s = Inr s' \<Longrightarrow> cleanupScopes s' = cleanupScopes s \<and> catchScopes s' = catchScopes s \<and> loopTargets s' = loopTargets s" "toIR_opt body s = Inr s' \<Longrightarrow> cleanupScopes s' = cleanupScopes s \<and> catchScopes s' = catchScopes s \<and> loopTargets s' = loopTargets s" for s s'
    by (erule opt_stacks, erule (1) ForStatement.IH)+
  have ih': "toIR st s = Inr s' \<Longrightarrow> st \<in> set_option init \<union> set_option body \<Longrightarrow> cleanupScopes s' = cleanupScopes s \<and> catchScopes s' = catchScopes s \<and> loopTargets s' = loopTargets s" for st s s'
    using ForStatement.IH by (auto simp: sameStacks_def)
  from ForStatement.prems show ?case
    by (auto simp: Let_def createBlock_def sameStacks_def  split: prod.splits sum.splits if_splits option.splits dest!: ih ih' )
next
  case (BreakStatement x)
  then show ?case
    by (auto simp: sameStacks_def visit_OnScopeStatement_def visit_Statement_def visit_PragmaStatement_def dest: leaf_stacks)
next
  case (ContinueStatement x)
  then show ?case
    by (auto simp: sameStacks_def visit_OnScopeStatement_def visit_Statement_def visit_PragmaStatement_def dest: leaf_stacks)
next
  case (OnScopeStatement)
  then show ?case
    by (auto simp: sameStacks_def visit_OnScopeStatement_def visit_Statement_def visit_PragmaStatement_def dest: leaf_stacks)
next
  case (TryFinallyStatement body finalbody)
  have ih: "toIR_opt body s = Inr s' \<Longrightarrow> cleanupScopes s' = cleanupScopes s \<and> catchScopes s' = catchScopes s \<and> loopTargets s' = loopTargets s" "toIR_opt finalbody s = Inr s' \<Longrightarrow> cleanupScopes s' = cleanupScopes s \<and> catchScopes s' = catchScopes s \<and> loopTargets s' = loopTargets s" for s s'
    by (erule opt_stacks, erule (1) TryFinallyStatement.IH)+
  have ih': "toIR st s = Inr s' \<Longrightarrow> st \<in> set_option body \<union> set_option finalbody \<Longrightarrow> cleanupScopes s' = cleanupScopes s \<and> catchScopes s' = catchScopes s \<and> loopTargets s' = loopTargets s" for st s s'
    using TryFinallyStatement.IH by (auto simp: sameStacks_def)
  from TryFinallyStatement.prems show ?case
    by (auto simp: Let_def createBlock_def sameStacks_def currentCleanupScope_def split: prod.splits sum.splits if_splits option.splits dest!: ih ih' )
next
  case (TryCatchStatement body catches)
  note ih = TryCatchStatement.IH(1)[THEN sameStacksD]
  have ihc: "toIR_catches catches e s = Inr (cbs, s') \<Longrightarrow> cleanupScopes s' = cleanupScopes s \<and> catchScopes s' = catchScopes s \<and> loopTargets s' = loopTargets s" for e s cbs s'
    by (drule catches_stacks) (auto dest: TryCatchStatement.IH(2) simp: sameStacks_def)
  from TryCatchStatement.prems show ?case
    by (auto simp: Let_def createBlock_def sameStacks_def  split: prod.splits sum.splits if_splits option.splits dest!: ih ihc popCatches_stacks)
next
  case (ThrowStatement x)
  then show ?case
    by (auto simp: sameStacks_def visit_OnScopeStatement_def visit_Statement_def visit_PragmaStatement_def dest: leaf_stacks)
next
  case (SwitchStatement sid cond ctype cases sdefault body)
  note ih = SwitchStatement.IH[THEN sameStacksD]
  from SwitchStatement.prems show ?case
    by (auto simp: Let_def createBlock_def sameStacks_def  split: prod.splits sum.splits if_splits option.splits dest!: ih stacks_scanCases stacks_emitDispatch)
next
  case (CaseStatement cs exp body)
  note ih = CaseStatement.IH[THEN sameStacksD]
  from CaseStatement.prems show ?case
    by (auto simp: Let_def createBlock_def sameStacks_def  split: prod.splits sum.splits if_splits option.splits dest!: ih )
next
  case (DefaultStatement sd body)
  note ih = DefaultStatement.IH[THEN sameStacksD]
  from DefaultStatement.prems show ?case
    by (auto simp: Let_def createBlock_def sameStacks_def  split: prod.splits sum.splits if_splits option.splits dest!: ih )
next
  case (UnrolledLoopStatement sid sts)
  have ihu: "toIR_unrolled sts sid blks i n endbb s = Inr s' \<Longrightarrow> cleanupScopes s' = cleanupScopes s \<and> catchScopes s' = catchScopes s \<and> loopTargets s' = loopTargets s" for blks i n endbb s s'
    by (drule unrolled_stacks) (auto dest: UnrolledLoopStatement.IH simp: sameStacks_def)
  have cb: "createBlocks n s = (bs, s') \<Longrightarrow> cleanupScopes s' = cleanupScopes s \<and> catchScopes s' = catchScopes s \<and> loopTargets s' = loopTargets s" for n s bs s'
    by (induction n arbitrary: s bs s') (auto simp: Let_def createBlock_def split: prod.splits)
  from UnrolledLoopStatement.prems show ?case
    by (auto simp: Let_def createBlock_def sameStacks_def split: prod.splits sum.splits if_splits option.splits dest!: ihu cb)
next
  case (ForeachStatement sid fwd byref aggr body)
  have ih: "toIR_opt body s = Inr s' \<Longrightarrow> cleanupScopes s' = cleanupScopes s \<and> catchScopes s' = catchScopes s \<and> loopTargets s' = loopTargets s" for s s'
    by (erule opt_stacks, erule (1) ForeachStatement.IH)+
  have ih': "toIR st s = Inr s' \<Longrightarrow> st \<in> set_option body \<Longrightarrow> cleanupScopes s' = cleanupScopes s \<and> catchScopes s' = catchScopes s \<and> loopTargets s' = loopTargets s" for st s s'
    using ForeachStatement.IH by (auto simp: sameStacks_def)
  from ForeachStatement.prems show ?case
    by (auto simp: Let_def createBlock_def sameStacks_def  split: prod.splits sum.splits if_splits option.splits dest!: ih ih' )
next
  case (ForeachRangeStatement sid fwd lwr upr body)
  have ih: "toIR_opt body s = Inr s' \<Longrightarrow> cleanupScopes s' = cleanupScopes s \<and> catchScopes s' = catchScopes s \<and> loopTargets s' = loopTargets s" for s s'
    by (erule opt_stacks, erule (1) ForeachRangeStatement.IH)+
  have ih': "toIR st s = Inr s' \<Longrightarrow> st \<in> set_option body \<Longrightarrow> cleanupScopes s' = cleanupScopes s \<and> catchScopes s' = catchScopes s \<and> loopTargets s' = loopTargets s" for st s s'
    using ForeachRangeStatement.IH by (auto simp: sameStacks_def)
  from ForeachRangeStatement.prems show ?case
    by (auto simp: Let_def createBlock_def sameStacks_def  split: prod.splits sum.splits if_splits option.splits dest!: ih ih' )
next
  case (LabelStatement ident body)
  have ih: "toIR_opt body s = Inr s' \<Longrightarrow> cleanupScopes s' = cleanupScopes s \<and> catchScopes s' = catchScopes s \<and> loopTargets s' = loopTargets s" for s s'
    by (erule opt_stacks, erule (1) LabelStatement.IH)+
  have ih': "toIR st s = Inr s' \<Longrightarrow> st \<in> set_option body \<Longrightarrow> cleanupScopes s' = cleanupScopes s \<and> catchScopes s' = catchScopes s \<and> loopTargets s' = loopTargets s" for st s s'
    using LabelStatement.IH by (auto simp: sameStacks_def)
  from LabelStatement.prems show ?case
    by (auto simp: Let_def createBlock_def sameStacks_def addLabelTarget_def split: prod.splits sum.splits if_splits option.splits dest!: ih ih' )
next
  case (GotoStatement x)
  then show ?case
    by (auto simp: sameStacks_def visit_OnScopeStatement_def visit_Statement_def visit_PragmaStatement_def dest: leaf_stacks)
next
  case (GotoDefaultStatement x)
  then show ?case
    by (auto simp: sameStacks_def visit_OnScopeStatement_def visit_Statement_def visit_PragmaStatement_def dest: leaf_stacks)
next
  case (GotoCaseStatement x)
  then show ?case
    by (auto simp: sameStacks_def visit_OnScopeStatement_def visit_Statement_def visit_PragmaStatement_def dest: leaf_stacks)
next
  case (WithStatement wthis exp body)
  have ih: "toIR_opt body s = Inr s' \<Longrightarrow> cleanupScopes s' = cleanupScopes s \<and> catchScopes s' = catchScopes s \<and> loopTargets s' = loopTargets s" for s s'
    by (erule opt_stacks, erule (1) WithStatement.IH)+
  have ih': "toIR st s = Inr s' \<Longrightarrow> st \<in> set_option body \<Longrightarrow> cleanupScopes s' = cleanupScopes s \<and> catchScopes s' = catchScopes s \<and> loopTargets s' = loopTargets s" for st s s'
    using WithStatement.IH by (auto simp: sameStacks_def)
  from WithStatement.prems show ?case
    by (auto simp: Let_def createBlock_def sameStacks_def  split: prod.splits sum.splits if_splits option.splits dest!: ih ih' )
next
  case (SwitchErrorStatement x)
  then show ?case
    by (auto simp: sameStacks_def visit_OnScopeStatement_def visit_Statement_def visit_PragmaStatement_def dest: leaf_stacks)
next
  case (AsmStatement)
  then show ?case
    by (auto simp: sameStacks_def visit_OnScopeStatement_def visit_Statement_def visit_PragmaStatement_def dest: leaf_stacks)
next
  case (CompoundAsmStatement)
  then show ?case
    by (auto simp: sameStacks_def visit_OnScopeStatement_def visit_Statement_def visit_PragmaStatement_def dest: leaf_stacks)
next
  case (ImportStatement)
  then show ?case
    by (auto simp: sameStacks_def visit_OnScopeStatement_def visit_Statement_def visit_PragmaStatement_def dest: leaf_stacks)
next
  case (Statement)
  then show ?case
    by (auto simp: sameStacks_def visit_OnScopeStatement_def visit_Statement_def visit_PragmaStatement_def dest: leaf_stacks)
next
  case (PragmaStatement)
  then show ?case
    by (auto simp: sameStacks_def visit_OnScopeStatement_def visit_Statement_def visit_PragmaStatement_def dest: leaf_stacks)
next
  case (Catch ty var handler)
  have ih: "toIR_opt handler s = Inr s' \<Longrightarrow> cleanupScopes s' = cleanupScopes s \<and> catchScopes s' = catchScopes s \<and> loopTargets s' = loopTargets s" for s s'
    by (erule opt_stacks, erule (1) Catch.IH)+
  have ih': "toIR st s = Inr s' \<Longrightarrow> st \<in> set_option handler \<Longrightarrow> cleanupScopes s' = cleanupScopes s \<and> catchScopes s' = catchScopes s \<and> loopTargets s' = loopTargets s" for st s s'
    using Catch.IH by (auto simp: sameStacks_def)
  from Catch.prems show ?case
    by (auto simp: Let_def createBlock_def sameStacks_def  split: prod.splits sum.splits if_splits option.splits dest!: ih ih' )
qed

lemma toIR_sameStacks: "toIR st s = Inr s' \<Longrightarrow> sameStacks s s'"
  by (rule toIR_sameStacks_aux)

lemma toIR_opt_sameStacks: "toIR_opt sto s = Inr s' \<Longrightarrow> sameStacks s s'"
  by (cases sto) (auto dest: toIR_sameStacks)

lemma toIR_catches_sameStacks: "toIR_catches cs endbb s = Inr (cbs, s') \<Longrightarrow> sameStacks s s'"
  by (erule catches_stacks) (rule toIR_sameStacks_aux)

lemma toIR_unrolled_sameStacks:
  "toIR_unrolled sts sid blks i n endbb s = Inr s' \<Longrightarrow> sameStacks s s'"
  by (erule unrolled_stacks) (rule toIR_sameStacks_aux)

section \<open>What running cleanups emits\<close>

lemma chainCode_nonempty [simp]: "chainCode cs n t \<noteq> []"
  by (cases cs) auto

lemma length_chainCode [simp]: "length (chainCode cs n t) = Suc (length cs)"
  by (induction cs arbitrary: n) auto

lemma runCleanupChain_blocks:
  "p < length (blocks s) \<Longrightarrow>
   runCleanupChain cs p target s =
     s\<lparr>blocks := (blocks s)[p := blocks s ! p @ hd (chainCode cs (length (blocks s)) target)]
                    @ tl (chainCode cs (length (blocks s)) target)\<rparr>"
proof (induction cs arbitrary: p s)
  case Nil
  then show ?case by (simp add: appendTo_def block_at_def)
next
  case (Cons c cs)
  let ?n = "length (blocks s)"
  let ?s3 = "s\<lparr>blocks := (blocks s)[p := blocks s ! p @ [RunCleanup (fst c) (snd c), Br ?n]] @ [[]]\<rparr>"
  have s3: "runCleanupChain (c # cs) p target s = runCleanupChain cs ?n target ?s3"
    using Cons.prems by (simp add: Let_def appendTo_def createBlock_def block_at_def list_update_append nth_append)
  have "?n < length (blocks ?s3)" by simp
  from Cons.IH[OF this] have "runCleanupChain cs ?n target ?s3 =
      ?s3\<lparr>blocks := (blocks ?s3)[?n := blocks ?s3 ! ?n @ hd (chainCode cs (Suc ?n) target)]
                    @ tl (chainCode cs (Suc ?n) target)\<rparr>" by simp
  also have "(blocks ?s3)[?n := blocks ?s3 ! ?n @ hd (chainCode cs (Suc ?n) target)]
      = (blocks s)[p := blocks s ! p @ [RunCleanup (fst c) (snd c), Br ?n]] @ [hd (chainCode cs (Suc ?n) target)]"
    by (simp add: list_update_append nth_append)
  finally show ?case unfolding s3 by simp
qed

lemma runCleanups_blocks:
  "scopebb s < length (blocks s) \<Longrightarrow>
   runCleanups depth target s =
     s\<lparr>blocks := (blocks s)[scopebb s := block_at s (scopebb s) @
                       hd (chainCode (rev (drop depth (cleanupScopes s))) (length (blocks s)) target)]
                    @ tl (chainCode (rev (drop depth (cleanupScopes s))) (length (blocks s)) target)\<rparr>"
  by (simp add: runCleanups_def runCleanupChain_blocks block_at_def)

lemma scopereturned_in_range: "scopereturned s \<Longrightarrow> scopebb s < length (blocks s)"
  by (auto simp: scopereturned_def block_at_def getTerminator_def split: if_splits)

lemma continue_target:
  "(case ident of Some target \<Rightarrow> continueWithLoop (stripScopes target) s | None \<Rightarrow> continueWithClosest s) = Inr s1
   \<Longrightarrow> \<exists>target depth. s1 = runCleanups depth target s"
  by (auto simp: continueWithLoop_def continueWithClosest_def split: option.splits prod.splits)

lemma statements_abort:
  assumes "Some bad \<in> set statements" and "\<And>s. isl (toIR bad s)"
  shows "isl (toIR_statements statements s)"
  using assms(1)
proof (induction statements arbitrary: s)
  case Nil
  then show ?case by simp
next
  case (Cons a statements)
  show ?case
  proof (cases "toIR_opt a s")
    case (Inl e)
    then show ?thesis by simp
  next
    case (Inr s1)
    show ?thesis
    proof (cases "a = Some bad")
      case True
      with Inr assms(2)[of s] show ?thesis by simp
    next
      case False
      with Cons.prems have "Some bad \<in> set statements" by simp
      from Cons.IH[OF this] Inr show ?thesis by simp
    qed
  qed
qed

section \<open>Return instructions\<close>

lemma filter_concat_update:
  "p < length xs \<Longrightarrow>
   length (filter P (concat (xs[p := xs ! p @ ys]))) = length (filter P (concat xs)) + length (filter P ys)"
proof (induction xs arbitrary: p)
  case Nil
  then show ?case by simp
next
  case (Cons a xs)
  then show ?case by (cases p) auto
qed

lemma chainCode_no_return [simp]: "filter isReturn (concat (chainCode cs n t)) = []"
  by (induction cs arbitrary: n) auto

lemma chainCode_no_return_hd [simp]: "filter isReturn (hd (chainCode cs n t)) = []"
  by (cases cs) auto

lemma chainCode_no_return_tl [simp]: "filter isReturn (concat (tl (chainCode cs n t))) = []"
  by (cases cs) auto

lemma returnValueOf_fields:
  assumes "returnValueOf exp s = Inr (rv, s1)"
  shows "cleanupScopes s1 = cleanupScopes s" "retBlock s1 = retBlock s" "retValSlot s1 = retValSlot s"
    "scopebb s1 = scopebb s" "length (blocks s1) = length (blocks s)"
  using assms
  by (auto simp: returnValueOf_def toElemDtor_def emit_def appendTo_def split: if_splits option.splits)

lemma returnValueOf_numReturns:
  assumes "returnValueOf exp s = Inr (rv, s1)"
  shows "numReturns s1 = numReturns s"
proof (cases "scopebb s < length (blocks s)")
  case True
  with assms show ?thesis
    by (auto simp: returnValueOf_def toElemDtor_def emit_def appendTo_def numReturns_def block_at_def
        filter_concat_update split: if_splits option.splits)
next
  case False
  with assms show ?thesis
    by (auto simp: returnValueOf_def toElemDtor_def emit_def appendTo_def numReturns_def
        list_update_beyond not_less split: if_splits option.splits)
qed

lemma emitReturn_direct:
  assumes "cleanupScopes s = []" "scopebb s < length (blocks s)"
  shows "emitReturn rv s = Inr (s\<lparr>blocks := (blocks s)[scopebb s := block_at s (scopebb s) @ [case rv of Some v \<Rightarrow> Ret v | None \<Rightarrow> RetVoid]] @ [[]],
            scopebb := length (blocks s)\<rparr>)"
  using assms
  by (auto simp: emitReturn_def currentCleanupScope_def Let_def emit_def appendTo_def createBlock_def setScope_def
      split: option.splits)

lemma emitReturn_first:
  assumes "cleanupScopes s \<noteq> []" "retBlock s = None" "scopebb s < length (blocks s)"
  shows "emitReturn rv s = Inr (s\<lparr>
      blocks := (blocks s)[scopebb s := block_at s (scopebb s)
            @ (case rv of Some v \<Rightarrow> [Store v (Alloca ''return.slot'')] | None \<Rightarrow> [])
            @ hd (chainCode (rev (cleanupScopes s)) (Suc (length (blocks s))) (length (blocks s)))]
          @ [[case rv of Some v \<Rightarrow> Ret (Load (Alloca ''return.slot'')) | None \<Rightarrow> RetVoid]]
          @ tl (chainCode (rev (cleanupScopes s)) (Suc (length (blocks s))) (length (blocks s)))
          @ [[]],
      scopebb := Suc (length (blocks s)) + length (cleanupScopes s),
      retBlock := Some (length (blocks s)),
      retValSlot := (case rv of Some v \<Rightarrow> Some (Alloca ''return.slot'') | None \<Rightarrow> retValSlot s)\<rparr>)"
  using assms
  apply (cases rv)
  apply (simp_all add: emitReturn_def currentCleanupScope_def Let_def createBlock_def runAllCleanups_def)
   apply (simp_all add: runCleanups_blocks emit_def appendTo_def block_at_def setScope_def)
   apply (simp_all add: nth_append list_update_append)
  done

lemma emitReturn_reuse:
  assumes "cleanupScopes s \<noteq> []" "retBlock s = Some rb" "scopebb s < length (blocks s)"
    and "rv \<noteq> None \<longrightarrow> retValSlot s \<noteq> None"
  shows "emitReturn rv s = Inr (s\<lparr>
      blocks := (blocks s)[scopebb s := block_at s (scopebb s)
            @ (case rv of Some v \<Rightarrow> [Store v (the (retValSlot s))] | None \<Rightarrow> [])
            @ hd (chainCode (rev (cleanupScopes s)) (length (blocks s)) rb)]
          @ tl (chainCode (rev (cleanupScopes s)) (length (blocks s)) rb)
          @ [[]],
      scopebb := length (blocks s) + length (cleanupScopes s)\<rparr>)"
  using assms
  apply (cases rv)
  apply (simp_all add: emitReturn_def currentCleanupScope_def Let_def createBlock_def runAllCleanups_def)
   apply (simp_all add: runCleanups_blocks emit_def appendTo_def block_at_def setScope_def)
  done

lemma numReturns_blocks_update:
  "blocks s' = (blocks s)[p := block_at s p @ ys] @ zs \<Longrightarrow> p < length (blocks s) \<Longrightarrow>
   numReturns s' = numReturns s + length (filter isReturn ys) + length (filter isReturn (concat zs))"
  by (simp add: numReturns_def block_at_def filter_concat_update)

lemma terminated_iff: "terminated b \<longleftrightarrow> b \<noteq> [] \<and> isTerminator (last b)"
  by (simp add: terminated_def getTerminator_def)

lemma terminated_snoc [simp]: "terminated (xs @ [i]) = isTerminator i"
  by (simp add: terminated_iff)

lemma terminated_Nil [simp]: "\<not> terminated []"
  by (simp add: terminated_iff)


lemma chainCode_hd_terminated [simp]: "terminated (xs @ hd (chainCode cs n t))"
  by (cases cs) (auto simp: terminated_iff)













lemma size_appendTo [simp]:
  "length (blocks (appendTo b i s)) = length (blocks s)" "scopebb (appendTo b i s) = scopebb s"
  by (simp_all add: appendTo_def)

lemma size_emit [simp]:
  "length (blocks (emit i s)) = length (blocks s)" "scopebb (emit i s) = scopebb s"
  by (simp_all add: emit_def)

lemma size_brIfOpen [simp]:
  "length (blocks (brIfOpen b s)) = length (blocks s)" "scopebb (brIfOpen b s) = scopebb s"
  by (simp_all add: brIfOpen_def)

lemma size_toElemDtor [simp]:
  "length (blocks (toElemDtor e s)) = length (blocks s)" "scopebb (toElemDtor e s) = scopebb s"
  by (simp_all add: toElemDtor_def)

lemma size_CreateCallOrInvoke [simp]:
  "length (blocks (CreateCallOrInvoke f a s)) = length (blocks s)"
  "scopebb (CreateCallOrInvoke f a s) = scopebb s"
  by (simp_all add: CreateCallOrInvoke_def)

lemma size_setScope [simp]:
  "length (blocks (setScope b s)) = length (blocks s)" "scopebb (setScope b s) = b"
  by (simp_all add: setScope_def)

lemma size_runCleanupChain [simp]:
  "length (blocks (runCleanupChain cs p t s)) = length (blocks s) + length cs"
  "scopebb (runCleanupChain cs p t s) = scopebb s"
  by (induction cs p t s rule: runCleanupChain.induct; simp add: Let_def createBlock_def)+

lemma size_runCleanups [simp]:
  "length (blocks (runCleanups d t s)) = length (blocks s) + (length (cleanupScopes s) - d)"
  "scopebb (runCleanups d t s) = scopebb s"
  by (simp_all add: runCleanups_def)

lemma size_stackops [simp]:
  "length (blocks (pushLoopTarget a b c s)) = length (blocks s)" "scopebb (pushLoopTarget a b c s) = scopebb s"
  "length (blocks (pushBreakTarget a c s)) = length (blocks s)" "scopebb (pushBreakTarget a c s) = scopebb s"
  "length (blocks (popLoopTarget s)) = length (blocks s)" "scopebb (popLoopTarget s) = scopebb s"
  "length (blocks (popBreakTarget s)) = length (blocks s)" "scopebb (popBreakTarget s) = scopebb s"
  "length (blocks (pushCleanup b e s)) = length (blocks s)" "scopebb (pushCleanup b e s) = scopebb s"
  "length (blocks (popCleanups n s)) = length (blocks s)" "scopebb (popCleanups n s) = scopebb s"
  "length (blocks (pushCatch cd b s)) = length (blocks s)" "scopebb (pushCatch cd b s) = scopebb s"
  by (simp_all add: pushLoopTarget_def pushBreakTarget_def popLoopTarget_def popBreakTarget_def
      pushCleanup_def popCleanups_def pushCatch_def)

lemma size_resetCases [simp]:
  "length (blocks (resetCases cases d s)) = length (blocks s)" "scopebb (resetCases cases d s) = scopebb s"
  by (simp_all add: resetCases_def Let_def split: option.splits)

lemma size_fold_pushCatch [simp]:
  "length (blocks (fold (\<lambda>(classdecl, BB). pushCatch classdecl BB) cbs s)) = length (blocks s)"
  "scopebb (fold (\<lambda>(classdecl, BB). pushCatch classdecl BB) cbs s) = scopebb s"
  by (induction cbs arbitrary: s; auto)+



lemma size_addIndices [simp]:
  "length (blocks (addIndices cases cs i s)) = length (blocks s)" "scopebb (addIndices cases cs i s) = scopebb s"
  by (induction cases cs i s rule: addIndices.induct; simp)+






















lemma chain_single:
  "chainCode [c] n target = [[RunCleanup (fst c) (snd c), Br n], [Br target]]"
  by simp



section \<open>ReturnStatement\<close>

text \<open>
  C4. Once the value to return has been computed (\<open>returnValueOf\<close>), a return
  statement is lowered in one of three ways. With no cleanup pending, the return
  instruction is emitted into the current block. With a cleanup pending and no shared
  return block yet, the return block and (for a value) the slot are created, the value is
  stored to the slot in the current block, the cleanups are run from the innermost out
  in a chain that ends in the return block, and the return block gets the one return
  instruction, which loads the slot. With a cleanup pending and the shared return block
  already there, block and slot are reused: the value is stored, the chain of cleanups
  ends in the existing return block, and no return instruction is emitted: the number of
  return instructions of the function stays the same.
\<close>

theorem return_lowering:
  assumes "returnValueOf exp s = Inr (rv, s1)" and "scopebb s < length (blocks s)"
  shows
   "(cleanupScopes s = [] \<longrightarrow>
       (\<exists>s'. toIR (ReturnStatement exp) s = Inr s' \<and>
          blocks s' = (blocks s1)[scopebb s := block_at s1 (scopebb s) @
                         [case rv of Some v \<Rightarrow> Ret v | None \<Rightarrow> RetVoid]] @ [[]] \<and>
          retBlock s' = retBlock s \<and> retValSlot s' = retValSlot s \<and>
          numReturns s' = Suc (numReturns s))) \<and>
    (cleanupScopes s \<noteq> [] \<and> retBlock s = None \<longrightarrow>
       (\<exists>s'. toIR (ReturnStatement exp) s = Inr s' \<and>
          blocks s' = (blocks s1)[scopebb s := block_at s1 (scopebb s)
                @ (case rv of Some v \<Rightarrow> [Store v (Alloca ''return.slot'')] | None \<Rightarrow> [])
                @ hd (chainCode (rev (cleanupScopes s)) (Suc (length (blocks s))) (length (blocks s)))]
              @ [[case rv of Some v \<Rightarrow> Ret (Load (Alloca ''return.slot'')) | None \<Rightarrow> RetVoid]]
              @ tl (chainCode (rev (cleanupScopes s)) (Suc (length (blocks s))) (length (blocks s)))
              @ [[]] \<and>
          retBlock s' = Some (length (blocks s)) \<and>
          retValSlot s' = (case rv of Some v \<Rightarrow> Some (Alloca ''return.slot'') | None \<Rightarrow> retValSlot s) \<and>
          numReturns s' = Suc (numReturns s))) \<and>
    (cleanupScopes s \<noteq> [] \<and> retBlock s \<noteq> None \<and> (rv \<noteq> None \<longrightarrow> retValSlot s \<noteq> None) \<longrightarrow>
       (\<exists>s'. toIR (ReturnStatement exp) s = Inr s' \<and>
          blocks s' = (blocks s1)[scopebb s := block_at s1 (scopebb s)
                @ (case rv of Some v \<Rightarrow> [Store v (the (retValSlot s))] | None \<Rightarrow> [])
                @ hd (chainCode (rev (cleanupScopes s)) (length (blocks s)) (the (retBlock s)))]
              @ tl (chainCode (rev (cleanupScopes s)) (length (blocks s)) (the (retBlock s)))
              @ [[]] \<and>
          retBlock s' = retBlock s \<and> retValSlot s' = retValSlot s \<and>
          numReturns s' = numReturns s))"
proof -
  note f = returnValueOf_fields[OF assms(1)]
  note n = returnValueOf_numReturns[OF assms(1)]
  have r: "scopebb s1 < length (blocks s1)" using assms(2) f by simp
  have v: "toIR (ReturnStatement exp) s = emitReturn rv s1"
    using assms(1) by (simp add: visit_ReturnStatement_def)
  have a: ?thesis if "cleanupScopes s = []"
  proof -
    let ?s' = "s1\<lparr>blocks := (blocks s1)[scopebb s1 := block_at s1 (scopebb s1) @ [case rv of Some v \<Rightarrow> Ret v | None \<Rightarrow> RetVoid]] @ [[]],
            scopebb := length (blocks s1)\<rparr>"
    have e: "toIR (ReturnStatement exp) s = Inr ?s'"
      unfolding v using that f r by (intro emitReturn_direct) simp_all
    have "numReturns ?s' = numReturns s1 + length (filter isReturn [case rv of Some v \<Rightarrow> Ret v | None \<Rightarrow> RetVoid])
            + length (filter isReturn (concat [[]]))"
      using r by (intro numReturns_blocks_update) simp_all
    then have "numReturns ?s' = Suc (numReturns s)" using n by (simp split: option.splits)
    with e that f show ?thesis by (simp split: option.splits)
  qed
  have b: ?thesis if "cleanupScopes s \<noteq> []" "retBlock s = None"
  proof -
    let ?cc = "chainCode (rev (cleanupScopes s1)) (Suc (length (blocks s1))) (length (blocks s1))"
    let ?ys = "(case rv of Some v \<Rightarrow> [Store v (Alloca ''return.slot'')] | None \<Rightarrow> []) @ hd ?cc"
    let ?zs = "[[case rv of Some v \<Rightarrow> Ret (Load (Alloca ''return.slot'')) | None \<Rightarrow> RetVoid]] @ tl ?cc @ [[]]"
    let ?s' = "s1\<lparr>blocks := (blocks s1)[scopebb s1 := block_at s1 (scopebb s1) @ ?ys] @ ?zs,
      scopebb := Suc (length (blocks s1)) + length (cleanupScopes s1),
      retBlock := Some (length (blocks s1)),
      retValSlot := (case rv of Some v \<Rightarrow> Some (Alloca ''return.slot'') | None \<Rightarrow> retValSlot s1)\<rparr>"
    have e: "toIR (ReturnStatement exp) s = Inr ?s'"
      unfolding v using that f r emitReturn_first[of s1 rv] by simp
    have "numReturns ?s' = numReturns s1 + length (filter isReturn ?ys) + length (filter isReturn (concat ?zs))"
      using r by (intro numReturns_blocks_update) simp_all
    then have "numReturns ?s' = Suc (numReturns s)" using n by (simp split: option.splits)
    with e that f show ?thesis by (simp split: option.splits)
  qed
  have c: ?thesis if "cleanupScopes s \<noteq> []" "retBlock s = Some rb"
      "rv \<noteq> None \<longrightarrow> retValSlot s \<noteq> None" for rb
  proof -
    let ?cc = "chainCode (rev (cleanupScopes s1)) (length (blocks s1)) rb"
    let ?ys = "(case rv of Some v \<Rightarrow> [Store v (the (retValSlot s1))] | None \<Rightarrow> []) @ hd ?cc"
    let ?zs = "tl ?cc @ [[]]"
    let ?s' = "s1\<lparr>blocks := (blocks s1)[scopebb s1 := block_at s1 (scopebb s1) @ ?ys] @ ?zs,
      scopebb := length (blocks s1) + length (cleanupScopes s1)\<rparr>"
    have e: "toIR (ReturnStatement exp) s = Inr ?s'"
      unfolding v using that f r emitReturn_reuse[of s1 rb rv] by simp
    have "numReturns ?s' = numReturns s1 + length (filter isReturn ?ys) + length (filter isReturn (concat ?zs))"
      using r by (intro numReturns_blocks_update) simp_all
    then have "numReturns ?s' = numReturns s" using n by (simp split: option.splits)
    with e that f show ?thesis by (simp split: option.splits)
  qed
  show ?thesis
  proof (cases "cleanupScopes s = []")
    case True
    then show ?thesis by (rule a)
  next
    case False
    show ?thesis
    proof (cases "retBlock s")
      case None
      with False show ?thesis by (rule b)
    next
      case (Some rb)
      show ?thesis
      proof (cases "rv \<noteq> None \<longrightarrow> retValSlot s \<noteq> None")
        case True
        with False Some show ?thesis by (rule c)
      next
        case False
        with Some show ?thesis using \<open>cleanupScopes s \<noteq> []\<close> by simp
      qed
    qed
  qed
qed

lemma insideTry_value:
  "returnValueOf (Some (Expr 1)) insideTry =
     Inr (Some (RVal (Expr 1)), insideTry\<lparr>blocks := [[Eval (Expr 1)], [Eval (Expr 9)]]\<rparr>)"
  by (simp add: returnValueOf_def insideTry_def emptyFunction_def toElemDtor_def emit_def
      appendTo_def block_at_def)

lemma insideTry_scope: "scopebb insideTry < length (blocks insideTry)"
  by (simp add: insideTry_def emptyFunction_def)

theorem return_lowering_witness:
  "returnValueOf (Some (Expr 1)) insideTry =
     Inr (Some (RVal (Expr 1)), insideTry\<lparr>blocks := [[Eval (Expr 1)], [Eval (Expr 9)]]\<rparr>) \<and>
   scopebb insideTry < length (blocks insideTry) \<and>
   (\<exists>s'. toIR (ReturnStatement (Some (Expr 1))) insideTry = Inr s' \<and>
      blocks s' = [[Eval (Expr 1), Store (RVal (Expr 1)) (Alloca ''return.slot''), RunCleanup 1 1, Br 3],
                   [Eval (Expr 9)], [Ret (Load (Alloca ''return.slot''))], [Br 2], []] \<and>
      retBlock s' = Some 2 \<and> retValSlot s' = Some (Alloca ''return.slot''))"
  using return_lowering[OF insideTry_value insideTry_scope] insideTry_value insideTry_scope
  by (auto simp add: insideTry_def emptyFunction_def block_at_def numeral_2_eq_2 numeral_3_eq_3)

section \<open>Jumps open a new block\<close>




section \<open>Statements the frontend should have removed\<close>

text \<open>
  C9. An \<open>OnScopeStatement\<close>, a bare \<open>Statement\<close> and a \<open>PragmaStatement\<close> are not
  lowered: the visitor reports the internal compiler error or the "not implemented"
  error and aborts, so that no state, and no block graph, comes back. The abort also
  ends the lowering of a compound statement that holds such a statement. An
  \<open>ImportStatement\<close> is lowered to nothing: the state comes back unchanged.
\<close>

theorem rejected_statements_abort:
  "toIR OnScopeStatement s =
     Inl (Fatal ''Internal Compiler Error: OnScopeStatement should have been lowered by frontend.'') \<and>
   toIR Statement s = Inl (Fatal ''Statement type Statement not implemented'') \<and>
   toIR PragmaStatement s = Inl (Fatal ''Statement type PragmaStatement not implemented'') \<and>
   toIR ImportStatement s = Inr s \<and>
   (Some OnScopeStatement \<in> set statements \<or> Some Statement \<in> set statements \<or>
    Some PragmaStatement \<in> set statements \<longrightarrow>
      isl (toIR (CompoundStatement statements) s))"
proof -
  have "isl (toIR_statements statements s)" if "Some OnScopeStatement \<in> set statements"
    using that by (rule statements_abort) (simp add: visit_OnScopeStatement_def)
  moreover have "isl (toIR_statements statements s)" if "Some Statement \<in> set statements"
    using that by (rule statements_abort) (simp add: visit_Statement_def)
  moreover have "isl (toIR_statements statements s)" if "Some PragmaStatement \<in> set statements"
    using that by (rule statements_abort) (simp add: visit_PragmaStatement_def)
  ultimately show ?thesis
    by (auto simp add: visit_OnScopeStatement_def visit_Statement_def visit_PragmaStatement_def
        visit_ImportStatement_def)
qed

theorem rejected_statements_abort_witness:
  "Some OnScopeStatement \<in> set [Some (ExpStatement (Some (Expr 1))), Some OnScopeStatement] \<and>
   isl (toIR (CompoundStatement [Some (ExpStatement (Some (Expr 1))), Some OnScopeStatement])
          emptyFunction) \<and>
   toIR ImportStatement emptyFunction = Inr emptyFunction"
  using rejected_statements_abort
    [of emptyFunction "[Some (ExpStatement (Some (Expr 1))), Some OnScopeStatement]"]
  by simp

section \<open>Break and continue in a terminated block\<close>

text \<open>
  C10. When the current block already ends in a terminator, lowering a break statement
  does nothing at all: the state comes back as it was. A continue statement lowered in
  the same state has no such guard: when it finds its loop, the code that runs the
  cleanups and branches to the continue block is appended to the terminated block, and a
  new block is opened.
\<close>

theorem break_ignored_in_terminated_block:
  assumes "scopereturned s"
  shows "toIR (BreakStatement ident) s = Inr s \<and>
         (\<forall>s'. toIR (ContinueStatement ident) s = Inr s' \<longrightarrow>
            (\<exists>target depth.
               blocks s' =
                 (blocks s)[scopebb s := block_at s (scopebb s) @
                     hd (chainCode (rev (drop depth (cleanupScopes s))) (length (blocks s)) target)]
                 @ tl (chainCode (rev (drop depth (cleanupScopes s))) (length (blocks s)) target)
                 @ [[]]
               \<and> scopebb s' = length (blocks s') - 1))"
proof -
  have r: "scopebb s < length (blocks s)" using assms by (rule scopereturned_in_range)
  have "toIR (BreakStatement ident) s = Inr s" using assms by (simp add: visit_BreakStatement_def)
  moreover
  { fix s' assume "toIR (ContinueStatement ident) s = Inr s'"
    then obtain s1 where a: "(case ident of Some target \<Rightarrow> continueWithLoop (stripScopes target) s | None \<Rightarrow> continueWithClosest s) = Inr s1"
      and b: "s' = setScope (length (blocks s1)) (s1\<lparr>blocks := blocks s1 @ [[]]\<rparr>)"
      by (auto simp: visit_ContinueStatement_def createBlock_def Let_def split: sum.splits)
    from continue_target[OF a] obtain target depth where "s1 = runCleanups depth target s" by blast
    with b r have "blocks s' =
                 (blocks s)[scopebb s := block_at s (scopebb s) @
                     hd (chainCode (rev (drop depth (cleanupScopes s))) (length (blocks s)) target)]
                 @ tl (chainCode (rev (drop depth (cleanupScopes s))) (length (blocks s)) target)
                 @ [[]]
               \<and> scopebb s' = length (blocks s') - 1"
      by (simp add: runCleanups_blocks setScope_def)
    then have "\<exists>target depth. blocks s' =
                 (blocks s)[scopebb s := block_at s (scopebb s) @
                     hd (chainCode (rev (drop depth (cleanupScopes s))) (length (blocks s)) target)]
                 @ tl (chainCode (rev (drop depth (cleanupScopes s))) (length (blocks s)) target)
                 @ [[]]
               \<and> scopebb s' = length (blocks s') - 1" by blast }
  ultimately show ?thesis by blast
qed

lemma terminatedInLoop_returned: "scopereturned terminatedInLoop"
  by (simp add: terminatedInLoop_def emptyFunction_def scopereturned_def block_at_def getTerminator_def)

lemma terminatedInLoop_continue:
  "map_sum id (\<lambda>s. (blocks s, scopebb s)) (toIR (ContinueStatement None) terminatedInLoop)
     = Inr ([[Br 1, RunCleanup 2 2, Br 3], [], [], [Br 1], []], 4)"
  by (simp add: terminatedInLoop_def emptyFunction_def visit_ContinueStatement_def
      continueWithClosest_def runCleanups_def appendTo_def createBlock_def block_at_def
      setScope_def Let_def)

theorem break_ignored_in_terminated_block_witness:
  "scopereturned terminatedInLoop \<and>
   toIR (BreakStatement None) terminatedInLoop = Inr terminatedInLoop \<and>
   map_sum id (\<lambda>s. (blocks s, scopebb s)) (toIR (ContinueStatement None) terminatedInLoop)
     = Inr ([[Br 1, RunCleanup 2 2, Br 3], [], [], [Br 1], []], 4)"
  using break_ignored_in_terminated_block[OF terminatedInLoop_returned, of None]
    terminatedInLoop_continue terminatedInLoop_returned
  by simp

end
